theory Spec2Isabelle
  imports Main "HOL-Library.Sublist"
begin

section \<open>Tokens\<close>

text \<open>
  The parser of \<^verbatim>\<open>source/parser.cpp\<close> works on a vector of tokens, each a type tag
  and its literal text. The header declaring \<^verbatim>\<open>Token\<close> is not part of the sources;
  the tags below are the ones \<^verbatim>\<open>parser.cpp\<close> names (\<^verbatim>\<open>Token::TYPE\<close> is written
  \<open>TYPE_tok\<close>, since \<open>TYPE\<close> is reserved in terms), and \<open>Other\<close> stands for
  every remaining tag of the enumeration (the operator tags such as plus or minus), which the
  parser never compares against: it recognises operators by their text.
\<close>

datatype token_type =
    END | TYPE_tok | IDENTIFIER | LPAREN | RPAREN | LBRACE | RBRACE | LBRACKET | RBRACKET
  | MULTIPLY | SEMICOLON | COMMA | ASSIGNMENT | INCREMENT | DECREMENT
  | IF | ELIF | ELSE | WHILE | FOR | REPEAT | RETURN | BREAK | CONTINUE
  | INTEGER_LITERAL | FLOAT_LITERAL | CHAR_LITERAL | STRING_LITERAL | BOOL_LITERAL
  | Other string

datatype token = Token token_type string

text \<open>The two members of \<^verbatim>\<open>Token\<close> that the parser reads.\<close>

fun type :: "token \<Rightarrow> token_type" where
  "type (Token t v) = t"

fun "value" :: "token \<Rightarrow> string" where
  "value (Token t v) = v"

section \<open>Abstract syntax\<close>

datatype expression =
    BinaryOperation string expression expression
  | PrefixExpression string expression
  | PostfixIncrementExpression expression
  | PostfixDecrementExpression expression
  | FunctionCallExpression expression "expression list"
  | SubscriptExpression expression expression
  | IntLiteral string
  | FloatLiteral string
  | CharLiteral string
  | StringLiteral string
  | BoolLiteral string
  | IdentifierExpression string
  | ParenthesizedExpression expression

datatype declarator = NoPtrDeclarator string | PtrDeclarator string

datatype init_declarator = InitDeclarator declarator "expression option"

datatype parameter_declaration = ParameterDeclaration string init_declarator

datatype var_declaration = VarDeclaration string "init_declarator list"

datatype statement =
    CompoundStatement "statement list"
  | ConditionalStatement "expression \<times> statement" "(expression \<times> statement) list"
      "statement option"
  | WhileStatement expression statement
  | RepeatStatement statement
  | ForStatement
  | BreakStatement
  | ContinueStatement
  | ReturnStatement expression
  | DeclarationStatement var_declaration
  | ExpressionStatement expression

text \<open>The body of a function declaration is a compound statement or absent (a null pointer).\<close>

datatype "declaration" =
    FuncDeclaration string declarator "parameter_declaration list" "statement option"
  | VarDecl var_declaration

datatype translation_unit = TranslationUnit "declaration list"

section \<open>Outcomes of a parsing function\<close>

text \<open>
  A member function of \<^verbatim>\<open>Parser\<close> reads the immutable vector \<^verbatim>\<open>tokens\<close> and moves the
  member \<^verbatim>\<open>offset\<close>. It is modelled as a function of the tokens and the offset that
  returns either its value with the new offset, or an error:
  \<^item> \<open>RuntimeError m off\<close>: \<^verbatim>\<open>throw std::runtime_error(m)\<close>, with the offset the parser
    object is left at;
  \<^item> \<open>OutOfBounds i\<close>: the code evaluates \<^verbatim>\<open>tokens[i]\<close> with \<open>i\<close> not below the size
    of the vector, which is undefined behaviour in C++;
  \<^item> \<open>OutOfFuel\<close>: the recursion went deeper than the fuel given to the model. The
    recursive functions take the fuel as an argument; every call of a recursive function and
    every iteration of a loop uses one unit.
\<close>

datatype error = RuntimeError string nat | OutOfBounds nat | OutOfFuel

type_synonym 'a result = "error + 'a \<times> nat"

definition bind :: "'a result \<Rightarrow> ('a \<Rightarrow> nat \<Rightarrow> 'b result) \<Rightarrow> 'b result" where
  "bind m f = (case m of Inl e \<Rightarrow> Inl e | Inr (a, off) \<Rightarrow> f a off)"

section \<open>Token stream cursor\<close>

text \<open>
  \<^verbatim>\<open>check_token\<close> folds \<^verbatim>\<open>tokens[offset].type == expected\<close> over the pack with
  \<^verbatim>\<open>||\<close>; over an empty pack the fold is \<^verbatim>\<open>false\<close> and reads nothing.
\<close>

definition check_token :: "token list \<Rightarrow> token_type list \<Rightarrow> nat \<Rightarrow> bool result" where
  "check_token tokens expected offset =
     (if expected = [] then Inr (False, offset)
      else if offset < length tokens
        then Inr (type (tokens ! offset) \<in> set expected, offset)
        else Inl (OutOfBounds offset))"

definition match_token :: "token list \<Rightarrow> token_type list \<Rightarrow> nat \<Rightarrow> bool result" where
  "match_token tokens expected offset =
     bind (check_token tokens expected offset) (\<lambda>match_found offset.
       if match_found then Inr (match_found, Suc offset) else Inr (match_found, offset))"

definition extract_token :: "token list \<Rightarrow> token_type list \<Rightarrow> nat \<Rightarrow> string result" where
  "extract_token tokens expected offset =
     (if offset < length tokens then
        (if type (tokens ! offset) \<notin> set expected
         then Inl (RuntimeError (''Unexpected token '' @ value (tokens ! offset)) offset)
         else Inr (value (tokens ! offset), Suc offset))
      else Inl (OutOfBounds offset))"

text \<open>
  \<^verbatim>\<open>match_pattern\<close> folds \<^verbatim>\<open>tokens[i++].type == expected\<close> over the pack with the
  short-circuit \<^verbatim>\<open>&&\<close>, on a local index \<^verbatim>\<open>i\<close> that starts at the offset: it stops
  reading at the first mismatch.
\<close>

fun match_pattern_from :: "token list \<Rightarrow> token_type list \<Rightarrow> nat \<Rightarrow> error + bool" where
  "match_pattern_from tokens [] i = Inr True"
| "match_pattern_from tokens (e # expected) i =
     (if i < length tokens then
        (if type (tokens ! i) = e then match_pattern_from tokens expected (Suc i)
         else Inr False)
      else Inl (OutOfBounds i))"

definition match_pattern :: "token list \<Rightarrow> token_type list \<Rightarrow> nat \<Rightarrow> bool result" where
  "match_pattern tokens expected offset =
     (case match_pattern_from tokens expected offset of
        Inl e \<Rightarrow> Inl e
      | Inr b \<Rightarrow> Inr (b, offset))"

text \<open>The reads \<^verbatim>\<open>tokens[offset].value\<close> of the operator loops and of the throw sites.\<close>

definition token_value :: "token list \<Rightarrow> nat \<Rightarrow> string result" where
  "token_value tokens offset =
     (if offset < length tokens then Inr (value (tokens ! offset), offset)
      else Inl (OutOfBounds offset))"

definition unexpected_token :: "token list \<Rightarrow> nat \<Rightarrow> 'a result" where
  "unexpected_token tokens offset =
     bind (token_value tokens offset) (\<lambda>v offset.
       Inl (RuntimeError (''Unexpected token '' @ v) offset))"

section \<open>Operator tables\<close>

definition operator_precedences :: "string \<Rightarrow> int option" where
  "operator_precedences = map_of
     [(''='', 0), (''+='', 0), (''-='', 0), (''*='', 0), (''/='', 0), (''%='', 0), (''**='', 0),
      (''||'', 1),
      (''&&'', 2),
      (''=='', 3), (''!='', 3),
      (''<'', 4), (''<='', 4), (''>'', 4), (''>='', 4),
      (''+'', 5), (''-'', 5),
      (''*'', 6), (''/'', 6), (''%'', 6),
      (''^'', 7)]"

definition unary_operators :: "string list" where
  "unary_operators = [''+'', ''-'', ''&'', ''*'', ''!'', ''++'', ''--'']"

section \<open>Expression parser\<close>

function parse_expression :: "token list \<Rightarrow> nat \<Rightarrow> nat \<Rightarrow> expression result"
  and parse_binary_expression :: "token list \<Rightarrow> nat \<Rightarrow> int \<Rightarrow> nat \<Rightarrow> expression result"
  and parse_binary_expression_loop ::
    "token list \<Rightarrow> nat \<Rightarrow> int \<Rightarrow> expression \<Rightarrow> nat \<Rightarrow> expression result"
  and parse_unary_expression :: "token list \<Rightarrow> nat \<Rightarrow> nat \<Rightarrow> expression result"
  and parse_postfix_expression :: "token list \<Rightarrow> nat \<Rightarrow> nat \<Rightarrow> expression result"
  and parse_postfix_expression_loop ::
    "token list \<Rightarrow> nat \<Rightarrow> expression \<Rightarrow> nat \<Rightarrow> expression result"
  and parse_function_call_expression ::
    "token list \<Rightarrow> nat \<Rightarrow> nat \<Rightarrow> expression list result"
  and parse_function_call_expression_loop ::
    "token list \<Rightarrow> nat \<Rightarrow> expression list \<Rightarrow> nat \<Rightarrow> expression list result"
  and parse_subscript_expression :: "token list \<Rightarrow> nat \<Rightarrow> nat \<Rightarrow> expression result"
  and parse_primary_expression :: "token list \<Rightarrow> nat \<Rightarrow> nat \<Rightarrow> expression result"
  and parse_parenthesized_expression :: "token list \<Rightarrow> nat \<Rightarrow> nat \<Rightarrow> expression result"
where
  "parse_expression tokens 0 offset = Inl OutOfFuel"
| "parse_expression tokens (Suc n) offset = parse_binary_expression tokens n 0 offset"

| "parse_binary_expression tokens 0 min_precedence offset = Inl OutOfFuel"
| "parse_binary_expression tokens (Suc n) min_precedence offset =
     bind (parse_unary_expression tokens n offset) (\<lambda>lhs offset.
       parse_binary_expression_loop tokens n min_precedence lhs offset)"

| "parse_binary_expression_loop tokens 0 min_precedence lhs offset = Inl OutOfFuel"
| "parse_binary_expression_loop tokens (Suc n) min_precedence lhs offset =
     bind (token_value tokens offset) (\<lambda>op offset.
       case operator_precedences op of
         None \<Rightarrow> Inr (lhs, offset)
       | Some p \<Rightarrow>
           if p \<ge> min_precedence then
             bind (parse_binary_expression tokens n p (Suc offset)) (\<lambda>rhs offset.
               parse_binary_expression_loop tokens n min_precedence
                 (BinaryOperation op lhs rhs) offset)
           else Inr (lhs, offset))"

| "parse_unary_expression tokens 0 offset = Inl OutOfFuel"
| "parse_unary_expression tokens (Suc n) offset =
     bind (token_value tokens offset) (\<lambda>op offset.
       if op \<in> set unary_operators then
         bind (parse_unary_expression tokens n (Suc offset)) (\<lambda>operand offset.
           Inr (PrefixExpression op operand, offset))
       else parse_postfix_expression tokens n offset)"

| "parse_postfix_expression tokens 0 offset = Inl OutOfFuel"
| "parse_postfix_expression tokens (Suc n) offset =
     bind (parse_primary_expression tokens n offset) (\<lambda>base offset.
       parse_postfix_expression_loop tokens n base offset)"

| "parse_postfix_expression_loop tokens 0 base offset = Inl OutOfFuel"
| "parse_postfix_expression_loop tokens (Suc n) base offset =
     bind (match_token tokens [INCREMENT] offset) (\<lambda>b offset.
       if b then parse_postfix_expression_loop tokens n (PostfixIncrementExpression base) offset
       else bind (match_token tokens [DECREMENT] offset) (\<lambda>b offset.
         if b then
           parse_postfix_expression_loop tokens n (PostfixDecrementExpression base) offset
         else bind (match_token tokens [LPAREN] offset) (\<lambda>b offset.
           if b then
             bind (parse_function_call_expression tokens n offset) (\<lambda>args offset.
               parse_postfix_expression_loop tokens n (FunctionCallExpression base args)
                 offset)
           else bind (match_token tokens [LBRACKET] offset) (\<lambda>b offset.
             if b then
               bind (parse_subscript_expression tokens n offset) (\<lambda>index offset.
                 parse_postfix_expression_loop tokens n (SubscriptExpression base index)
                   offset)
             else Inr (base, offset)))))"

| "parse_function_call_expression tokens 0 offset = Inl OutOfFuel"
| "parse_function_call_expression tokens (Suc n) offset =
     bind (match_token tokens [RPAREN] offset) (\<lambda>b offset.
       if \<not> b then
         bind (parse_function_call_expression_loop tokens n [] offset) (\<lambda>args offset.
           bind (extract_token tokens [RPAREN] offset) (\<lambda>_ offset. Inr (args, offset)))
       else bind (extract_token tokens [RPAREN] offset) (\<lambda>_ offset. Inr ([], offset)))"

| "parse_function_call_expression_loop tokens 0 args offset = Inl OutOfFuel"
| "parse_function_call_expression_loop tokens (Suc n) args offset =
     bind (parse_expression tokens n offset) (\<lambda>e offset.
       bind (match_token tokens [COMMA] offset) (\<lambda>b offset.
         if \<not> b then Inr (args @ [e], offset)
         else bind (extract_token tokens [COMMA] offset) (\<lambda>_ offset.
           parse_function_call_expression_loop tokens n (args @ [e]) offset)))"

| "parse_subscript_expression tokens 0 offset = Inl OutOfFuel"
| "parse_subscript_expression tokens (Suc n) offset =
     bind (parse_expression tokens n offset) (\<lambda>index offset.
       bind (extract_token tokens [RBRACKET] offset) (\<lambda>_ offset. Inr (index, offset)))"

| "parse_primary_expression tokens 0 offset = Inl OutOfFuel"
| "parse_primary_expression tokens (Suc n) offset =
     bind (check_token tokens [INTEGER_LITERAL] offset) (\<lambda>b offset.
       if b then bind (extract_token tokens [INTEGER_LITERAL] offset) (\<lambda>v offset.
         Inr (IntLiteral v, offset))
       else bind (check_token tokens [FLOAT_LITERAL] offset) (\<lambda>b offset.
       if b then bind (extract_token tokens [FLOAT_LITERAL] offset) (\<lambda>v offset.
         Inr (FloatLiteral v, offset))
       else bind (check_token tokens [CHAR_LITERAL] offset) (\<lambda>b offset.
       if b then bind (extract_token tokens [CHAR_LITERAL] offset) (\<lambda>v offset.
         Inr (CharLiteral v, offset))
       else bind (check_token tokens [STRING_LITERAL] offset) (\<lambda>b offset.
       if b then bind (extract_token tokens [STRING_LITERAL] offset) (\<lambda>v offset.
         Inr (StringLiteral v, offset))
       else bind (check_token tokens [BOOL_LITERAL] offset) (\<lambda>b offset.
       if b then bind (extract_token tokens [BOOL_LITERAL] offset) (\<lambda>v offset.
         Inr (BoolLiteral v, offset))
       else bind (check_token tokens [IDENTIFIER] offset) (\<lambda>b offset.
       if b then bind (extract_token tokens [IDENTIFIER] offset) (\<lambda>v offset.
         Inr (IdentifierExpression v, offset))
       else bind (match_token tokens [LPAREN] offset) (\<lambda>b offset.
       if b then parse_parenthesized_expression tokens n offset
       else unexpected_token tokens offset)))))))"

| "parse_parenthesized_expression tokens 0 offset = Inl OutOfFuel"
| "parse_parenthesized_expression tokens (Suc n) offset =
     bind (parse_expression tokens n offset) (\<lambda>expression offset.
       bind (extract_token tokens [RPAREN] offset) (\<lambda>_ offset.
         Inr (ParenthesizedExpression expression, offset)))"

  by pat_completeness auto

termination
  by (relation "measure (\<lambda>x. case x of
        Inl (Inl (Inl (tokens, n, offset))) \<Rightarrow> n
      | Inl (Inl (Inr (tokens, n, min_precedence, offset))) \<Rightarrow> n
      | Inl (Inr (Inl (tokens, n, min_precedence, lhs, offset))) \<Rightarrow> n
      | Inl (Inr (Inr (Inl (tokens, n, offset)))) \<Rightarrow> n
      | Inl (Inr (Inr (Inr (tokens, n, offset)))) \<Rightarrow> n
      | Inr (Inl (Inl (tokens, n, base, offset))) \<Rightarrow> n
      | Inr (Inl (Inr (Inl (tokens, n, offset)))) \<Rightarrow> n
      | Inr (Inl (Inr (Inr (tokens, n, args, offset)))) \<Rightarrow> n
      | Inr (Inr (Inl (tokens, n, offset))) \<Rightarrow> n
      | Inr (Inr (Inr (Inl (tokens, n, offset)))) \<Rightarrow> n
      | Inr (Inr (Inr (Inr (tokens, n, offset)))) \<Rightarrow> n)") simp_all

section \<open>Declaration parser\<close>

definition parse_declarator :: "token list \<Rightarrow> nat \<Rightarrow> declarator result" where
  "parse_declarator tokens offset =
     bind (match_pattern tokens [MULTIPLY, IDENTIFIER] offset) (\<lambda>b offset.
       if b then
         bind (extract_token tokens [MULTIPLY] offset) (\<lambda>_ offset.
           bind (extract_token tokens [IDENTIFIER] offset) (\<lambda>name offset.
             Inr (PtrDeclarator name, offset)))
       else bind (match_pattern tokens [IDENTIFIER] offset) (\<lambda>b offset.
         if b then
           bind (extract_token tokens [IDENTIFIER] offset) (\<lambda>name offset.
             Inr (NoPtrDeclarator name, offset))
         else unexpected_token tokens offset))"

definition parse_init_declarator :: "token list \<Rightarrow> nat \<Rightarrow> nat \<Rightarrow> init_declarator result" where
  "parse_init_declarator tokens n offset =
     bind (parse_declarator tokens offset) (\<lambda>declarator offset.
       bind (match_token tokens [ASSIGNMENT] offset) (\<lambda>b offset.
         if b then
           bind (parse_expression tokens n offset) (\<lambda>initializer offset.
             Inr (InitDeclarator declarator (Some initializer), offset))
         else Inr (InitDeclarator declarator None, offset)))"

text \<open>
  \<^verbatim>\<open>parse_parameter_declaration\<close> passes \<^verbatim>\<open>extract_token(Token::TYPE)\<close> and
  \<^verbatim>\<open>parse_init_declarator()\<close> as the two arguments of one call of \<^verbatim>\<open>std::make_shared\<close>.
  Both move the offset, and C++ does not say which argument of a call is evaluated first:
  the compiler chooses. The order is therefore an argument of the model, handed down from
  \<^verbatim>\<open>parse\<close>: \<open>LeftToRight\<close> reads the type token and then the init-declarator
  (\<^verbatim>\<open>int x\<close>), \<open>RightToLeft\<close> reads the init-declarator and then the type token
  (\<^verbatim>\<open>x int\<close>). It is the only call of the parser whose arguments interfere.
\<close>

datatype evaluation_order = LeftToRight | RightToLeft

definition parse_parameter_declaration ::
  "evaluation_order \<Rightarrow> token list \<Rightarrow> nat \<Rightarrow> nat \<Rightarrow> parameter_declaration result" where
  "parse_parameter_declaration order tokens n offset =
     (case order of
        LeftToRight \<Rightarrow>
          bind (extract_token tokens [TYPE_tok] offset) (\<lambda>type_name offset.
            bind (parse_init_declarator tokens n offset) (\<lambda>init_declarator offset.
              Inr (ParameterDeclaration type_name init_declarator, offset)))
      | RightToLeft \<Rightarrow>
          bind (parse_init_declarator tokens n offset) (\<lambda>init_declarator offset.
            bind (extract_token tokens [TYPE_tok] offset) (\<lambda>type_name offset.
              Inr (ParameterDeclaration type_name init_declarator, offset))))"

fun parse_var_declaration_loop ::
  "token list \<Rightarrow> nat \<Rightarrow> init_declarator list \<Rightarrow> nat \<Rightarrow> init_declarator list result" where
  "parse_var_declaration_loop tokens 0 declarator_list offset = Inl OutOfFuel"
| "parse_var_declaration_loop tokens (Suc n) declarator_list offset =
     bind (parse_init_declarator tokens n offset) (\<lambda>d offset.
       bind (match_token tokens [COMMA] offset) (\<lambda>b offset.
         if b then parse_var_declaration_loop tokens n (declarator_list @ [d]) offset
         else bind (match_token tokens [SEMICOLON] offset) (\<lambda>b offset.
           if b then Inr (declarator_list @ [d], offset)
           else unexpected_token tokens offset)))"

definition parse_var_declaration :: "token list \<Rightarrow> nat \<Rightarrow> nat \<Rightarrow> var_declaration result" where
  "parse_var_declaration tokens n offset =
     bind (extract_token tokens [TYPE_tok] offset) (\<lambda>type_name offset.
       bind (parse_var_declaration_loop tokens n [] offset) (\<lambda>declarator_list offset.
         Inr (VarDeclaration type_name declarator_list, offset)))"

section \<open>Statement parser\<close>

definition parse_for_statement :: "token list \<Rightarrow> nat \<Rightarrow> statement result" where
  "parse_for_statement tokens offset = Inr (ForStatement, offset)"

definition parse_break_statement :: "token list \<Rightarrow> nat \<Rightarrow> statement result" where
  "parse_break_statement tokens offset =
     bind (extract_token tokens [SEMICOLON] offset) (\<lambda>_ offset. Inr (BreakStatement, offset))"

definition parse_continue_statement :: "token list \<Rightarrow> nat \<Rightarrow> statement result" where
  "parse_continue_statement tokens offset =
     bind (extract_token tokens [SEMICOLON] offset) (\<lambda>_ offset.
       Inr (ContinueStatement, offset))"

definition parse_return_statement :: "token list \<Rightarrow> nat \<Rightarrow> nat \<Rightarrow> statement result" where
  "parse_return_statement tokens n offset =
     bind (parse_expression tokens n offset) (\<lambda>expression offset.
       bind (extract_token tokens [SEMICOLON] offset) (\<lambda>_ offset.
         Inr (ReturnStatement expression, offset)))"

definition parse_jump_statement :: "token list \<Rightarrow> nat \<Rightarrow> nat \<Rightarrow> statement result" where
  "parse_jump_statement tokens n offset =
     bind (match_token tokens [BREAK] offset) (\<lambda>b offset.
       if b then parse_break_statement tokens offset
       else bind (match_token tokens [CONTINUE] offset) (\<lambda>b offset.
         if b then parse_continue_statement tokens offset
         else bind (extract_token tokens [RETURN] offset) (\<lambda>_ offset.
           parse_return_statement tokens n offset)))"

definition parse_declaration_statement :: "token list \<Rightarrow> nat \<Rightarrow> nat \<Rightarrow> statement result" where
  "parse_declaration_statement tokens n offset =
     bind (parse_var_declaration tokens n offset) (\<lambda>declaration offset.
       Inr (DeclarationStatement declaration, offset))"

definition parse_expression_statement :: "token list \<Rightarrow> nat \<Rightarrow> nat \<Rightarrow> statement result" where
  "parse_expression_statement tokens n offset =
     bind (parse_expression tokens n offset) (\<lambda>expression offset.
       bind (extract_token tokens [SEMICOLON] offset) (\<lambda>_ offset.
         Inr (ExpressionStatement expression, offset)))"

function parse_statement :: "token list \<Rightarrow> nat \<Rightarrow> nat \<Rightarrow> statement result"
  and parse_compound_statement :: "token list \<Rightarrow> nat \<Rightarrow> nat \<Rightarrow> statement result"
  and parse_compound_statement_loop ::
    "token list \<Rightarrow> nat \<Rightarrow> statement list \<Rightarrow> nat \<Rightarrow> statement result"
  and parse_conditional_statement :: "token list \<Rightarrow> nat \<Rightarrow> nat \<Rightarrow> statement result"
  and parse_conditional_statement_loop ::
    "token list \<Rightarrow> nat \<Rightarrow> (expression \<times> statement) list \<Rightarrow> nat
       \<Rightarrow> (expression \<times> statement) list result"
  and parse_loop_statement :: "token list \<Rightarrow> nat \<Rightarrow> nat \<Rightarrow> statement result"
  and parse_while_statement :: "token list \<Rightarrow> nat \<Rightarrow> nat \<Rightarrow> statement result"
  and parse_repeat_statement :: "token list \<Rightarrow> nat \<Rightarrow> nat \<Rightarrow> statement result"
where
  "parse_statement tokens 0 offset = Inl OutOfFuel"
| "parse_statement tokens (Suc n) offset =
     bind (match_token tokens [LBRACE] offset) (\<lambda>b offset.
       if b then parse_compound_statement tokens n offset
       else bind (match_token tokens [IF] offset) (\<lambda>b offset.
       if b then parse_conditional_statement tokens n offset
       else bind (check_token tokens [WHILE, FOR, REPEAT] offset) (\<lambda>b offset.
       if b then parse_loop_statement tokens n offset
       else bind (check_token tokens [RETURN, BREAK, CONTINUE] offset) (\<lambda>b offset.
       if b then parse_jump_statement tokens n offset
       else bind (check_token tokens [TYPE_tok] offset) (\<lambda>b offset.
       if b then parse_declaration_statement tokens n offset
       else parse_expression_statement tokens n offset)))))"

| "parse_compound_statement tokens 0 offset = Inl OutOfFuel"
| "parse_compound_statement tokens (Suc n) offset =
     parse_compound_statement_loop tokens n [] offset"

| "parse_compound_statement_loop tokens 0 statements offset = Inl OutOfFuel"
| "parse_compound_statement_loop tokens (Suc n) statements offset =
     bind (match_token tokens [RBRACE] offset) (\<lambda>b offset.
       if \<not> b then
         bind (parse_statement tokens n offset) (\<lambda>s offset.
           parse_compound_statement_loop tokens n (statements @ [s]) offset)
       else Inr (CompoundStatement statements, offset))"

| "parse_conditional_statement tokens 0 offset = Inl OutOfFuel"
| "parse_conditional_statement tokens (Suc n) offset =
     bind (extract_token tokens [LPAREN] offset) (\<lambda>_ offset.
     bind (parse_expression tokens n offset) (\<lambda>if_condition offset.
     bind (extract_token tokens [RPAREN] offset) (\<lambda>_ offset.
     bind (parse_statement tokens n offset) (\<lambda>if_statement offset.
     bind (parse_conditional_statement_loop tokens n [] offset) (\<lambda>elif_branches offset.
     bind (match_token tokens [ELSE] offset) (\<lambda>b offset.
       if b then
         bind (parse_statement tokens n offset) (\<lambda>else_branch offset.
           Inr (ConditionalStatement (if_condition, if_statement) elif_branches
                  (Some else_branch), offset))
       else
         Inr (ConditionalStatement (if_condition, if_statement) elif_branches None,
              offset)))))))"

| "parse_conditional_statement_loop tokens 0 elif_branches offset = Inl OutOfFuel"
| "parse_conditional_statement_loop tokens (Suc n) elif_branches offset =
     bind (match_token tokens [ELIF] offset) (\<lambda>b offset.
       if b then
         bind (extract_token tokens [LPAREN] offset) (\<lambda>_ offset.
         bind (parse_expression tokens n offset) (\<lambda>elif_condition offset.
         bind (extract_token tokens [RPAREN] offset) (\<lambda>_ offset.
         bind (parse_statement tokens n offset) (\<lambda>elif_statement offset.
           parse_conditional_statement_loop tokens n
             (elif_branches @ [(elif_condition, elif_statement)]) offset))))
       else Inr (elif_branches, offset))"

| "parse_loop_statement tokens 0 offset = Inl OutOfFuel"
| "parse_loop_statement tokens (Suc n) offset =
     bind (match_token tokens [WHILE] offset) (\<lambda>b offset.
       if b then parse_while_statement tokens n offset
       else bind (match_token tokens [FOR] offset) (\<lambda>b offset.
         if b then parse_for_statement tokens offset
         else bind (extract_token tokens [REPEAT] offset) (\<lambda>_ offset.
           parse_repeat_statement tokens n offset)))"

| "parse_while_statement tokens 0 offset = Inl OutOfFuel"
| "parse_while_statement tokens (Suc n) offset =
     bind (extract_token tokens [LPAREN] offset) (\<lambda>_ offset.
     bind (parse_expression tokens n offset) (\<lambda>condition offset.
     bind (extract_token tokens [RPAREN] offset) (\<lambda>_ offset.
     bind (parse_statement tokens n offset) (\<lambda>statement offset.
       Inr (WhileStatement condition statement, offset)))))"

| "parse_repeat_statement tokens 0 offset = Inl OutOfFuel"
| "parse_repeat_statement tokens (Suc n) offset =
     bind (parse_statement tokens n offset) (\<lambda>statement offset.
       Inr (RepeatStatement statement, offset))"
  by pat_completeness auto

termination
  by (relation "measure (\<lambda>x. case x of
        Inl (Inl (Inl (tokens, n, offset))) \<Rightarrow> n
      | Inl (Inl (Inr (tokens, n, offset))) \<Rightarrow> n
      | Inl (Inr (Inl (tokens, n, statements, offset))) \<Rightarrow> n
      | Inl (Inr (Inr (tokens, n, offset))) \<Rightarrow> n
      | Inr (Inl (Inl (tokens, n, elif_branches, offset))) \<Rightarrow> n
      | Inr (Inl (Inr (tokens, n, offset))) \<Rightarrow> n
      | Inr (Inr (Inl (tokens, n, offset))) \<Rightarrow> n
      | Inr (Inr (Inr (tokens, n, offset))) \<Rightarrow> n)") simp_all

section \<open>Function declarations and the translation unit\<close>

fun parse_function_declaration_loop ::
  "evaluation_order \<Rightarrow> token list \<Rightarrow> nat \<Rightarrow> parameter_declaration list \<Rightarrow> nat
     \<Rightarrow> parameter_declaration list result" where
  "parse_function_declaration_loop order tokens 0 args offset = Inl OutOfFuel"
| "parse_function_declaration_loop order tokens (Suc n) args offset =
     bind (parse_parameter_declaration order tokens n offset) (\<lambda>p offset.
       bind (token_value tokens offset) (\<lambda>v offset.
         if v = '','' then parse_function_declaration_loop order tokens n (args @ [p]) (Suc offset)
         else bind (token_value tokens offset) (\<lambda>v offset.
           if v = '')'' then Inr (args @ [p], Suc offset)
           else Inl (RuntimeError ''Missing closing parenthesis'' offset))))"

definition parse_function_declaration ::
  "evaluation_order \<Rightarrow> token list \<Rightarrow> nat \<Rightarrow> nat \<Rightarrow> declaration result" where
  "parse_function_declaration order tokens n offset =
     bind (extract_token tokens [TYPE_tok] offset) (\<lambda>type_name offset.
     bind (parse_declarator tokens offset) (\<lambda>declarator offset.
     bind (extract_token tokens [LPAREN] offset) (\<lambda>_ offset.
     bind (match_token tokens [RPAREN] offset) (\<lambda>b offset.
     bind (if \<not> b then parse_function_declaration_loop order tokens n [] offset
           else Inr ([], offset)) (\<lambda>args offset.
     bind (match_token tokens [LBRACE] offset) (\<lambda>b offset.
       if b then
         bind (parse_compound_statement tokens n offset) (\<lambda>body offset.
           Inr (FuncDeclaration type_name declarator args (Some body), offset))
       else bind (match_token tokens [SEMICOLON] offset) (\<lambda>b offset.
         if \<not> b then Inl (RuntimeError ''Unexpected token'' offset)
         else Inr (FuncDeclaration type_name declarator args None, offset))))))))"

definition parse_declaration ::
  "evaluation_order \<Rightarrow> token list \<Rightarrow> nat \<Rightarrow> nat \<Rightarrow> declaration result" where
  "parse_declaration order tokens n offset =
     bind (match_pattern tokens [TYPE_tok, IDENTIFIER, LPAREN] offset) (\<lambda>b offset.
     bind (if b then Inr (True, offset)
           else match_pattern tokens [TYPE_tok, MULTIPLY, IDENTIFIER, LPAREN] offset)
       (\<lambda>is_function offset.
       if is_function then parse_function_declaration order tokens n offset
       else
         bind (match_pattern tokens [TYPE_tok, IDENTIFIER] offset) (\<lambda>b offset.
         bind (if b then Inr (True, offset)
               else match_pattern tokens [TYPE_tok, MULTIPLY, IDENTIFIER] offset)
           (\<lambda>is_variable offset.
           if is_variable then
             bind (parse_var_declaration tokens n offset) (\<lambda>d offset. Inr (VarDecl d, offset))
           else unexpected_token tokens offset))))"

fun parse_loop ::
  "evaluation_order \<Rightarrow> token list \<Rightarrow> nat \<Rightarrow> declaration list \<Rightarrow> nat
     \<Rightarrow> translation_unit result" where
  "parse_loop order tokens 0 declarations offset = Inl OutOfFuel"
| "parse_loop order tokens (Suc n) declarations offset =
     bind (match_token tokens [END] offset) (\<lambda>b offset.
       if \<not> b then
         bind (parse_declaration order tokens n offset) (\<lambda>d offset.
           parse_loop order tokens n (declarations @ [d]) offset)
       else Inr (TranslationUnit declarations, offset))"

text \<open>
  The constructor sets the offset to 0; \<^verbatim>\<open>parse\<close> starts from there. Its first argument
  is the order in which the build evaluates the arguments of the parameter declaration.
\<close>

definition parse :: "evaluation_order \<Rightarrow> token list \<Rightarrow> nat \<Rightarrow> translation_unit result" where
  "parse order tokens n = parse_loop order tokens n [] 0"

section \<open>Predicates used in the theorems\<close>

text \<open>
  \<open>end_terminated\<close>: the vector ends with an end-of-input token, no other token has that
  type, and the text of the sentinel is none of the texts on which the parser advances
  without looking at the type (the binary and unary operators, the comma and the closing
  parenthesis of a parameter list).

  \<open>inside\<close>: a function did not read outside the vector and, if it returned, left the
  offset on a token of the vector.

  \<open>names_token\<close>: if a function threw, it stopped on a token of the vector and its
  message is \<^verbatim>\<open>Unexpected token\<close>, a space and the text of that token.

  \<open>reported\<close>: if a function threw, it stopped on a token of the vector, and its message
  names that token, or is \<^verbatim>\<open>Missing closing parenthesis\<close> on a token whose text is neither
  a comma nor a closing parenthesis, or is the bare \<^verbatim>\<open>Unexpected token\<close>.
\<close>

definition end_terminated :: "token list \<Rightarrow> bool" where
  "end_terminated tokens =
     (tokens \<noteq> [] \<and> type (last tokens) = END \<and> END \<notin> set (map type (butlast tokens))
      \<and> operator_precedences (value (last tokens)) = None
      \<and> value (last tokens) \<notin> set unary_operators
      \<and> value (last tokens) \<noteq> '','' \<and> value (last tokens) \<noteq> '')'')"

definition inside :: "token list \<Rightarrow> 'a result \<Rightarrow> bool" where
  "inside tokens r =
     (case r of
        Inl (OutOfBounds i) \<Rightarrow> False
      | Inl _ \<Rightarrow> True
      | Inr (a, off) \<Rightarrow> off < length tokens)"

definition names_token :: "token list \<Rightarrow> 'a result \<Rightarrow> bool" where
  "names_token tokens r =
     (case r of
        Inl (RuntimeError m off) \<Rightarrow>
          off < length tokens \<and> m = ''Unexpected token '' @ value (tokens ! off)
      | _ \<Rightarrow> True)"

definition reported :: "token list \<Rightarrow> 'a result \<Rightarrow> bool" where
  "reported tokens r =
     (case r of
        Inl (RuntimeError m off) \<Rightarrow>
          off < length tokens
          \<and> (m = ''Unexpected token '' @ value (tokens ! off)
             \<or> (m = ''Missing closing parenthesis''
                \<and> value (tokens ! off) \<noteq> '','' \<and> value (tokens ! off) \<noteq> '')'')
             \<or> m = ''Unexpected token'')
      | _ \<Rightarrow> True)"

text \<open>
  The fuel of the model is a device of the model, not of the parser. Three more predicates
  serve to show that it has no influence on the outcome:
  \<open>reaches\<close>: if a function returned, the offset is at least \<open>lo\<close> and at most the size
  of the vector;
  \<open>finishes\<close>: a function did not run out of fuel;
  \<open>extends\<close>: the second outcome is the first one, unless the first ran out of fuel.
\<close>

definition reaches :: "token list \<Rightarrow> nat \<Rightarrow> 'a result \<Rightarrow> bool" where
  "reaches tokens lo r =
     (case r of Inl e \<Rightarrow> True | Inr (a, off) \<Rightarrow> lo \<le> off \<and> off \<le> length tokens)"

definition finishes :: "'a result \<Rightarrow> bool" where
  "finishes r = (r \<noteq> Inl OutOfFuel)"

definition extends :: "'a result \<Rightarrow> 'a result \<Rightarrow> bool" where
  "extends r r' = (r = Inl OutOfFuel \<or> r' = r)"

section \<open>Stepping through the cursor primitives\<close>

lemma bind_Inl [simp]: "bind (Inl e) f = Inl e"
  by (simp add: bind_def)

lemma bind_Inr [simp]: "bind (Inr (a, off)) f = f a off"
  by (simp add: bind_def)

lemma bind_if: "bind (if c then x else y) f = (if c then bind x f else bind y f)"
  by simp

lemma bind_assoc: "bind (bind m f) g = bind m (\<lambda>a off. bind (f a off) g)"
  by (simp add: bind_def split: sum.splits)

lemma bind_check_token:
  "bind (check_token tokens expected offset) f =
     (if expected = [] then f False offset
      else if offset < length tokens then f (type (tokens ! offset) \<in> set expected) offset
      else Inl (OutOfBounds offset))"
  by (simp add: check_token_def)

lemma bind_match_token:
  "bind (match_token tokens expected offset) f =
     (if expected = [] then f False offset
      else if offset < length tokens then
        (if type (tokens ! offset) \<in> set expected then f True (Suc offset)
         else f False offset)
      else Inl (OutOfBounds offset))"
  by (simp add: match_token_def check_token_def)

lemma bind_extract_token:
  "bind (extract_token tokens expected offset) f =
     (if offset < length tokens then
        (if type (tokens ! offset) \<in> set expected
         then f (value (tokens ! offset)) (Suc offset)
         else Inl (RuntimeError (''Unexpected token '' @ value (tokens ! offset)) offset))
      else Inl (OutOfBounds offset))"
  by (simp add: extract_token_def)

lemma bind_token_value:
  "bind (token_value tokens offset) f =
     (if offset < length tokens then f (value (tokens ! offset)) offset
      else Inl (OutOfBounds offset))"
  by (simp add: token_value_def)

lemma unexpected_token_eq:
  "unexpected_token tokens offset =
     (if offset < length tokens
      then Inl (RuntimeError (''Unexpected token '' @ value (tokens ! offset)) offset)
      else Inl (OutOfBounds offset))"
  by (simp add: unexpected_token_def bind_token_value)

lemma bind_match_pattern:
  "bind (match_pattern tokens expected offset) f =
     (case match_pattern_from tokens expected offset of
        Inl e \<Rightarrow> Inl e
      | Inr b \<Rightarrow> f b offset)"
  by (simp add: match_pattern_def split: sum.splits)

lemmas cursor_simps =
  bind_check_token bind_match_token bind_extract_token bind_token_value
  unexpected_token_eq bind_match_pattern

lemma operator_precedences_nonneg: "operator_precedences op = Some p \<Longrightarrow> 0 \<le> p"
  by (auto simp: operator_precedences_def split: if_splits)

lemma match_pattern_from_total:
  "i + length expected \<le> length tokens \<Longrightarrow> \<exists>b. match_pattern_from tokens expected i = Inr b"
  by (induction expected arbitrary: i) auto

section \<open>No read outside the vector\<close>

lemma inside_simps [simp]:
  "inside tokens (Inr (a, off)) = (off < length tokens)"
  "inside tokens (Inl (RuntimeError m off)) = True"
  "inside tokens (Inl OutOfFuel) = True"
  "inside tokens (Inl (OutOfBounds i)) = False"
  by (simp_all add: inside_def)

lemma inside_bind:
  assumes "inside tokens m"
    and "\<And>a off. off < length tokens \<Longrightarrow> inside tokens (f a off)"
  shows "inside tokens (bind m f)"
proof (cases m)
  case (Inl e)
  with assms(1) show ?thesis by (cases e) simp_all
next
  case (Inr p)
  with assms show ?thesis by (cases p) simp
qed

lemma last_index:
  assumes "off < length tokens" and "\<not> Suc off < length tokens"
  shows "tokens ! off = last tokens"
proof -
  from assms have "off = length tokens - 1" by simp
  moreover from assms have "tokens \<noteq> []" by auto
  ultimately show ?thesis by (simp add: last_conv_nth)
qed

lemma not_last_by_type:
  assumes "end_terminated tokens" and "off < length tokens"
    and "type (tokens ! off) \<in> set expected" and "END \<notin> set expected"
  shows "Suc off < length tokens"
proof (rule ccontr)
  assume "\<not> Suc off < length tokens"
  with assms(2) have "tokens ! off = last tokens" by (rule last_index)
  with assms show False by (auto simp: end_terminated_def)
qed

lemma not_last_by_value:
  assumes "end_terminated tokens" and "off < length tokens"
    and "operator_precedences (value (tokens ! off)) = Some p
         \<or> value (tokens ! off) \<in> set unary_operators
         \<or> value (tokens ! off) = '',''
         \<or> value (tokens ! off) = '')''"
  shows "Suc off < length tokens"
proof (rule ccontr)
  assume "\<not> Suc off < length tokens"
  with assms(2) have "tokens ! off = last tokens" by (rule last_index)
  with assms show False by (auto simp: end_terminated_def)
qed

lemma inside_check_token:
  "off < length tokens \<Longrightarrow> inside tokens (check_token tokens expected off)"
  by (simp add: check_token_def)

lemma inside_match_token:
  "end_terminated tokens \<Longrightarrow> off < length tokens \<Longrightarrow> END \<notin> set expected
   \<Longrightarrow> inside tokens (match_token tokens expected off)"
  by (auto simp: match_token_def check_token_def dest: not_last_by_type)

lemma inside_extract_token:
  "end_terminated tokens \<Longrightarrow> off < length tokens \<Longrightarrow> END \<notin> set expected
   \<Longrightarrow> inside tokens (extract_token tokens expected off)"
  by (auto simp: extract_token_def dest: not_last_by_type)

lemma match_pattern_from_inside:
  "end_terminated tokens \<Longrightarrow> i < length tokens \<Longrightarrow> END \<notin> set expected
   \<Longrightarrow> \<exists>b. match_pattern_from tokens expected i = Inr b"
proof (induction expected arbitrary: i)
  case Nil
  show ?case by auto
next
  case (Cons e expected)
  show ?case
  proof (cases "type (tokens ! i) = e")
    case True
    with Cons.prems have "Suc i < length tokens"
      by (auto intro: not_last_by_type [where expected = "[e]"])
    with Cons True show ?thesis by simp
  next
    case False
    with Cons.prems show ?thesis by auto
  qed
qed

lemma inside_match_pattern:
  assumes "end_terminated tokens" and "off < length tokens" and "END \<notin> set expected"
  shows "inside tokens (match_pattern tokens expected off)"
proof -
  from assms obtain b where "match_pattern_from tokens expected off = Inr b"
    using match_pattern_from_inside by blast
  with assms(2) show ?thesis by (simp add: match_pattern_def)
qed

lemma inside_unexpected_token:
  "off < length tokens \<Longrightarrow> inside tokens (unexpected_token tokens off)"
  by (simp add: unexpected_token_eq)

lemmas inside_intros =
  inside_bind inside_check_token inside_match_token inside_extract_token
  inside_match_pattern inside_unexpected_token

lemma expression_inside:
  assumes t: "end_terminated tokens"
  shows "(\<forall>off. off < length tokens \<longrightarrow> inside tokens (parse_expression tokens n off))
    \<and> (\<forall>off mp. off < length tokens \<longrightarrow> inside tokens (parse_binary_expression tokens n mp off))
    \<and> (\<forall>off mp lhs. off < length tokens \<longrightarrow>
          inside tokens (parse_binary_expression_loop tokens n mp lhs off))
    \<and> (\<forall>off. off < length tokens \<longrightarrow> inside tokens (parse_unary_expression tokens n off))
    \<and> (\<forall>off. off < length tokens \<longrightarrow> inside tokens (parse_postfix_expression tokens n off))
    \<and> (\<forall>off base. off < length tokens \<longrightarrow>
          inside tokens (parse_postfix_expression_loop tokens n base off))
    \<and> (\<forall>off. off < length tokens \<longrightarrow>
          inside tokens (parse_function_call_expression tokens n off))
    \<and> (\<forall>off args. off < length tokens \<longrightarrow>
          inside tokens (parse_function_call_expression_loop tokens n args off))
    \<and> (\<forall>off. off < length tokens \<longrightarrow> inside tokens (parse_subscript_expression tokens n off))
    \<and> (\<forall>off. off < length tokens \<longrightarrow> inside tokens (parse_primary_expression tokens n off))
    \<and> (\<forall>off. off < length tokens \<longrightarrow>
          inside tokens (parse_parenthesized_expression tokens n off))"
proof (induction n)
  case 0
  show ?case by simp
next
  case (Suc n)
  note ih = Suc.IH [rule_format]
  have nl: "\<And>off p. off < length tokens \<Longrightarrow>
      operator_precedences (value (tokens ! off)) = Some p \<Longrightarrow> Suc off < length tokens"
    using not_last_by_value [OF t] by blast
  have nu: "\<And>off. off < length tokens \<Longrightarrow>
      value (tokens ! off) \<in> set unary_operators \<Longrightarrow> Suc off < length tokens"
    using not_last_by_value [OF t] by blast
  have 1: "inside tokens (parse_expression tokens (Suc n) off)" if "off < length tokens" for off
    using that ih by simp
  have 2: "inside tokens (parse_binary_expression tokens (Suc n) mp off)"
    if "off < length tokens" for off mp
    using that ih by (auto intro!: inside_bind)
  have 3: "inside tokens (parse_binary_expression_loop tokens (Suc n) mp lhs off)"
    if "off < length tokens" for off mp lhs
    using that ih nl by (auto simp: bind_token_value intro!: inside_bind split: option.splits)
  have 4: "inside tokens (parse_unary_expression tokens (Suc n) off)"
    if "off < length tokens" for off
    using that ih nu by (auto simp: bind_token_value intro!: inside_bind)
  have 5: "inside tokens (parse_postfix_expression tokens (Suc n) off)"
    if "off < length tokens" for off
    using that ih by (auto intro!: inside_bind)
  have 6: "inside tokens (parse_postfix_expression_loop tokens (Suc n) base off)"
    if "off < length tokens" for off base
    using that ih t by (auto intro!: inside_intros)
  have 7: "inside tokens (parse_function_call_expression tokens (Suc n) off)"
    if "off < length tokens" for off
    using that ih t by (auto intro!: inside_intros)
  have 8: "inside tokens (parse_function_call_expression_loop tokens (Suc n) args off)"
    if "off < length tokens" for off args
    using that ih t by (auto intro!: inside_intros)
  have 9: "inside tokens (parse_subscript_expression tokens (Suc n) off)"
    if "off < length tokens" for off
    using that ih t by (auto intro!: inside_intros)
  have 10: "inside tokens (parse_primary_expression tokens (Suc n) off)"
    if "off < length tokens" for off
    using that ih t by (auto intro!: inside_intros)
  have 11: "inside tokens (parse_parenthesized_expression tokens (Suc n) off)"
    if "off < length tokens" for off
    using that ih t by (auto intro!: inside_intros)
  from 1 2 3 4 5 6 7 8 9 10 11 show ?case by blast
qed


lemma parse_expression_inside:
  "end_terminated tokens \<Longrightarrow> off < length tokens
   \<Longrightarrow> inside tokens (parse_expression tokens n off)"
  by (rule expression_inside [THEN conjunct1, rule_format])

lemma parse_declarator_inside:
  "end_terminated tokens \<Longrightarrow> off < length tokens
   \<Longrightarrow> inside tokens (parse_declarator tokens off)"
  unfolding parse_declarator_def by (auto intro!: inside_intros)

lemma parse_init_declarator_inside:
  "end_terminated tokens \<Longrightarrow> off < length tokens
   \<Longrightarrow> inside tokens (parse_init_declarator tokens n off)"
  unfolding parse_init_declarator_def
  by (auto intro!: inside_intros parse_declarator_inside parse_expression_inside)

lemma parse_parameter_declaration_inside:
  "end_terminated tokens \<Longrightarrow> off < length tokens
   \<Longrightarrow> inside tokens (parse_parameter_declaration order tokens n off)"
  unfolding parse_parameter_declaration_def
  by (cases order) (auto intro!: inside_intros parse_init_declarator_inside)

lemma parse_var_declaration_loop_inside:
  "end_terminated tokens \<Longrightarrow> off < length tokens
   \<Longrightarrow> inside tokens (parse_var_declaration_loop tokens n ds off)"
  by (induction n arbitrary: ds off)
     (auto intro!: inside_intros parse_init_declarator_inside)

lemma parse_var_declaration_inside:
  "end_terminated tokens \<Longrightarrow> off < length tokens
   \<Longrightarrow> inside tokens (parse_var_declaration tokens n off)"
  unfolding parse_var_declaration_def
  by (auto intro!: inside_intros parse_var_declaration_loop_inside)

lemma parse_jump_statement_inside:
  "end_terminated tokens \<Longrightarrow> off < length tokens
   \<Longrightarrow> inside tokens (parse_jump_statement tokens n off)"
  unfolding parse_jump_statement_def parse_break_statement_def parse_continue_statement_def
    parse_return_statement_def
  by (auto intro!: inside_intros parse_expression_inside)

lemma parse_declaration_statement_inside:
  "end_terminated tokens \<Longrightarrow> off < length tokens
   \<Longrightarrow> inside tokens (parse_declaration_statement tokens n off)"
  unfolding parse_declaration_statement_def
  by (auto intro!: inside_intros parse_var_declaration_inside)

lemma parse_expression_statement_inside:
  "end_terminated tokens \<Longrightarrow> off < length tokens
   \<Longrightarrow> inside tokens (parse_expression_statement tokens n off)"
  unfolding parse_expression_statement_def
  by (auto intro!: inside_intros parse_expression_inside)

lemmas statement_leaf_inside =
  parse_expression_inside parse_jump_statement_inside parse_declaration_statement_inside
  parse_expression_statement_inside

lemma statement_inside:
  assumes t: "end_terminated tokens"
  shows "(\<forall>off. off < length tokens \<longrightarrow> inside tokens (parse_statement tokens n off))
    \<and> (\<forall>off. off < length tokens \<longrightarrow> inside tokens (parse_compound_statement tokens n off))
    \<and> (\<forall>off ss. off < length tokens \<longrightarrow>
          inside tokens (parse_compound_statement_loop tokens n ss off))
    \<and> (\<forall>off. off < length tokens \<longrightarrow>
          inside tokens (parse_conditional_statement tokens n off))
    \<and> (\<forall>off bs. off < length tokens \<longrightarrow>
          inside tokens (parse_conditional_statement_loop tokens n bs off))
    \<and> (\<forall>off. off < length tokens \<longrightarrow> inside tokens (parse_loop_statement tokens n off))
    \<and> (\<forall>off. off < length tokens \<longrightarrow> inside tokens (parse_while_statement tokens n off))
    \<and> (\<forall>off. off < length tokens \<longrightarrow> inside tokens (parse_repeat_statement tokens n off))"
proof (induction n)
  case 0
  show ?case by simp
next
  case (Suc n)
  note ih = Suc.IH [rule_format]
  have 1: "inside tokens (parse_statement tokens (Suc n) off)" if "off < length tokens" for off
    using that ih t by (auto intro!: inside_intros statement_leaf_inside)
  have 2: "inside tokens (parse_compound_statement tokens (Suc n) off)"
    if "off < length tokens" for off
    using that ih by simp
  have 3: "inside tokens (parse_compound_statement_loop tokens (Suc n) ss off)"
    if "off < length tokens" for off ss
    using that ih t by (auto intro!: inside_intros)
  have 4: "inside tokens (parse_conditional_statement tokens (Suc n) off)"
    if "off < length tokens" for off
    using that ih t by (auto intro!: inside_intros statement_leaf_inside)
  have 5: "inside tokens (parse_conditional_statement_loop tokens (Suc n) bs off)"
    if "off < length tokens" for off bs
    using that ih t by (auto intro!: inside_intros statement_leaf_inside)
  have 6: "inside tokens (parse_loop_statement tokens (Suc n) off)"
    if "off < length tokens" for off
    using that ih t by (auto simp: parse_for_statement_def intro!: inside_intros)
  have 7: "inside tokens (parse_while_statement tokens (Suc n) off)"
    if "off < length tokens" for off
    using that ih t by (auto intro!: inside_intros statement_leaf_inside)
  have 8: "inside tokens (parse_repeat_statement tokens (Suc n) off)"
    if "off < length tokens" for off
    using that ih t by (auto intro!: inside_intros)
  from 1 2 3 4 5 6 7 8 show ?case by blast
qed

lemma parse_compound_statement_inside:
  "end_terminated tokens \<Longrightarrow> off < length tokens
   \<Longrightarrow> inside tokens (parse_compound_statement tokens n off)"
  by (rule statement_inside [THEN conjunct2, THEN conjunct1, rule_format])

lemma parse_function_declaration_loop_inside:
  assumes t: "end_terminated tokens"
  shows "off < length tokens
   \<Longrightarrow> inside tokens (parse_function_declaration_loop order tokens n args off)"
proof (induction n arbitrary: args off)
  case 0
  show ?case by simp
next
  case (Suc n)
  have comma: "\<And>off. off < length tokens \<Longrightarrow> value (tokens ! off) = '',''
      \<Longrightarrow> Suc off < length tokens"
    using not_last_by_value [OF t] by blast
  have paren: "\<And>off. off < length tokens \<Longrightarrow> value (tokens ! off) = '')''
      \<Longrightarrow> Suc off < length tokens"
    using not_last_by_value [OF t] by blast
  from Suc t comma paren show ?case
    by (auto simp: bind_token_value intro!: inside_bind parse_parameter_declaration_inside)
qed

lemma parse_function_declaration_inside:
  "end_terminated tokens \<Longrightarrow> off < length tokens
   \<Longrightarrow> inside tokens (parse_function_declaration order tokens n off)"
  unfolding parse_function_declaration_def
  by (auto intro!: inside_intros parse_declarator_inside
      parse_function_declaration_loop_inside parse_compound_statement_inside)

lemma parse_declaration_inside:
  "end_terminated tokens \<Longrightarrow> off < length tokens
   \<Longrightarrow> inside tokens (parse_declaration order tokens n off)"
  unfolding parse_declaration_def
  by (auto intro!: inside_intros parse_function_declaration_inside
      parse_var_declaration_inside)

lemma parse_loop_in_bounds:
  "end_terminated tokens \<Longrightarrow> off < length tokens
   \<Longrightarrow> parse_loop order tokens n ds off \<noteq> Inl (OutOfBounds i)"
proof (induction n arbitrary: ds off)
  case 0
  show ?case by simp
next
  case (Suc n)
  from Suc.prems have d: "inside tokens (parse_declaration order tokens n off)"
    by (rule parse_declaration_inside)
  show ?case
  proof (cases "parse_declaration order tokens n off")
    case (Inl e)
    with d Suc.prems show ?thesis by (cases e) (simp_all add: bind_match_token)
  next
    case (Inr p)
    with d Suc show ?thesis by (cases p) (simp add: bind_match_token)
  qed
qed

section \<open>Messages of the errors\<close>

text \<open>
  Every function other than \<^verbatim>\<open>parse_function_declaration\<close> and its callers throws only
  messages that name the token at the offset where it stopped.
\<close>

lemma names_token_simps [simp]:
  "names_token tokens (Inr p) = True"
  "names_token tokens (Inl OutOfFuel) = True"
  "names_token tokens (Inl (OutOfBounds i)) = True"
  "names_token tokens (Inl (RuntimeError m off)) =
     (off < length tokens \<and> m = ''Unexpected token '' @ value (tokens ! off))"
  by (simp_all add: names_token_def)

lemma names_token_bind:
  assumes "names_token tokens m" and "\<And>a off. names_token tokens (f a off)"
  shows "names_token tokens (bind m f)"
proof (cases m)
  case (Inl e)
  with assms(1) show ?thesis by (cases e) simp_all
next
  case (Inr p)
  with assms(2) show ?thesis by (cases p) simp
qed

lemma names_token_check_token: "names_token tokens (check_token tokens expected off)"
  by (simp add: check_token_def)

lemma names_token_match_token: "names_token tokens (match_token tokens expected off)"
  by (simp add: match_token_def check_token_def)

lemma names_token_extract_token: "names_token tokens (extract_token tokens expected off)"
  by (simp add: extract_token_def)

lemma match_pattern_from_error:
  "match_pattern_from tokens expected i = Inl e \<Longrightarrow> \<exists>j. e = OutOfBounds j"
  by (induction expected arbitrary: i) (auto split: if_splits)

lemma names_token_match_pattern: "names_token tokens (match_pattern tokens expected off)"
  by (auto simp: match_pattern_def split: sum.splits dest: match_pattern_from_error)

lemma names_token_token_value: "names_token tokens (token_value tokens off)"
  by (simp add: token_value_def)

lemma names_token_unexpected_token: "names_token tokens (unexpected_token tokens off)"
  by (simp add: unexpected_token_eq)

lemmas names_token_intros =
  names_token_bind names_token_check_token names_token_match_token names_token_extract_token
  names_token_match_pattern names_token_token_value names_token_unexpected_token

lemma expression_names_token:
  "(\<forall>off. names_token tokens (parse_expression tokens n off))
    \<and> (\<forall>off mp. names_token tokens (parse_binary_expression tokens n mp off))
    \<and> (\<forall>off mp lhs. names_token tokens (parse_binary_expression_loop tokens n mp lhs off))
    \<and> (\<forall>off. names_token tokens (parse_unary_expression tokens n off))
    \<and> (\<forall>off. names_token tokens (parse_postfix_expression tokens n off))
    \<and> (\<forall>off base. names_token tokens (parse_postfix_expression_loop tokens n base off))
    \<and> (\<forall>off. names_token tokens (parse_function_call_expression tokens n off))
    \<and> (\<forall>off args. names_token tokens (parse_function_call_expression_loop tokens n args off))
    \<and> (\<forall>off. names_token tokens (parse_subscript_expression tokens n off))
    \<and> (\<forall>off. names_token tokens (parse_primary_expression tokens n off))
    \<and> (\<forall>off. names_token tokens (parse_parenthesized_expression tokens n off))"
proof (induction n)
  case 0
  show ?case by simp
next
  case (Suc n)
  note ih = Suc.IH [rule_format]
  have 1: "names_token tokens (parse_expression tokens (Suc n) off)" for off
    using ih by simp
  have 2: "names_token tokens (parse_binary_expression tokens (Suc n) mp off)" for off mp
    using ih by (auto intro!: names_token_intros)
  have 3: "names_token tokens (parse_binary_expression_loop tokens (Suc n) mp lhs off)"
    for off mp lhs
    using ih by (auto intro!: names_token_intros split: option.splits)
  have 4: "names_token tokens (parse_unary_expression tokens (Suc n) off)" for off
    using ih by (auto intro!: names_token_intros)
  have 5: "names_token tokens (parse_postfix_expression tokens (Suc n) off)" for off
    using ih by (auto intro!: names_token_intros)
  have 6: "names_token tokens (parse_postfix_expression_loop tokens (Suc n) base off)"
    for off base
    using ih by (auto intro!: names_token_intros)
  have 7: "names_token tokens (parse_function_call_expression tokens (Suc n) off)" for off
    using ih by (auto intro!: names_token_intros)
  have 8: "names_token tokens (parse_function_call_expression_loop tokens (Suc n) args off)"
    for off args
    using ih by (auto intro!: names_token_intros)
  have 9: "names_token tokens (parse_subscript_expression tokens (Suc n) off)" for off
    using ih by (auto intro!: names_token_intros)
  have 10: "names_token tokens (parse_primary_expression tokens (Suc n) off)" for off
    using ih by (auto intro!: names_token_intros)
  have 11: "names_token tokens (parse_parenthesized_expression tokens (Suc n) off)" for off
    using ih by (auto intro!: names_token_intros)
  from 1 2 3 4 5 6 7 8 9 10 11 show ?case by blast
qed

lemma parse_expression_names_token: "names_token tokens (parse_expression tokens n off)"
  by (rule expression_names_token [THEN conjunct1, rule_format])

lemma parse_declarator_names_token: "names_token tokens (parse_declarator tokens off)"
  unfolding parse_declarator_def by (auto intro!: names_token_intros)

lemma parse_init_declarator_names_token: "names_token tokens (parse_init_declarator tokens n off)"
  unfolding parse_init_declarator_def
  by (auto intro!: names_token_intros parse_declarator_names_token parse_expression_names_token)

lemma parse_parameter_declaration_names_token:
  "names_token tokens (parse_parameter_declaration order tokens n off)"
  unfolding parse_parameter_declaration_def
  by (cases order) (auto intro!: names_token_intros parse_init_declarator_names_token)

lemma parse_var_declaration_loop_names_token:
  "names_token tokens (parse_var_declaration_loop tokens n ds off)"
  by (induction n arbitrary: ds off)
     (auto intro!: names_token_intros parse_init_declarator_names_token)

lemma parse_var_declaration_names_token: "names_token tokens (parse_var_declaration tokens n off)"
  unfolding parse_var_declaration_def
  by (auto intro!: names_token_intros parse_var_declaration_loop_names_token)

lemma parse_jump_statement_names_token: "names_token tokens (parse_jump_statement tokens n off)"
  unfolding parse_jump_statement_def parse_break_statement_def parse_continue_statement_def
    parse_return_statement_def
  by (auto intro!: names_token_intros parse_expression_names_token)

lemma parse_declaration_statement_names_token:
  "names_token tokens (parse_declaration_statement tokens n off)"
  unfolding parse_declaration_statement_def
  by (auto intro!: names_token_intros parse_var_declaration_names_token)

lemma parse_expression_statement_names_token:
  "names_token tokens (parse_expression_statement tokens n off)"
  unfolding parse_expression_statement_def
  by (auto intro!: names_token_intros parse_expression_names_token)

lemmas statement_leaf_names_token =
  parse_expression_names_token parse_jump_statement_names_token
  parse_declaration_statement_names_token parse_expression_statement_names_token

lemma statement_names_token:
  "(\<forall>off. names_token tokens (parse_statement tokens n off))
    \<and> (\<forall>off. names_token tokens (parse_compound_statement tokens n off))
    \<and> (\<forall>off ss. names_token tokens (parse_compound_statement_loop tokens n ss off))
    \<and> (\<forall>off. names_token tokens (parse_conditional_statement tokens n off))
    \<and> (\<forall>off bs. names_token tokens (parse_conditional_statement_loop tokens n bs off))
    \<and> (\<forall>off. names_token tokens (parse_loop_statement tokens n off))
    \<and> (\<forall>off. names_token tokens (parse_while_statement tokens n off))
    \<and> (\<forall>off. names_token tokens (parse_repeat_statement tokens n off))"
proof (induction n)
  case 0
  show ?case by simp
next
  case (Suc n)
  note ih = Suc.IH [rule_format]
  have 1: "names_token tokens (parse_statement tokens (Suc n) off)" for off
    using ih by (auto intro!: names_token_intros statement_leaf_names_token)
  have 2: "names_token tokens (parse_compound_statement tokens (Suc n) off)" for off
    using ih by simp
  have 3: "names_token tokens (parse_compound_statement_loop tokens (Suc n) ss off)" for off ss
    using ih by (auto intro!: names_token_intros)
  have 4: "names_token tokens (parse_conditional_statement tokens (Suc n) off)" for off
    using ih by (auto intro!: names_token_intros statement_leaf_names_token)
  have 5: "names_token tokens (parse_conditional_statement_loop tokens (Suc n) bs off)"
    for off bs
    using ih by (auto intro!: names_token_intros statement_leaf_names_token)
  have 6: "names_token tokens (parse_loop_statement tokens (Suc n) off)" for off
    using ih by (auto simp: parse_for_statement_def intro!: names_token_intros)
  have 7: "names_token tokens (parse_while_statement tokens (Suc n) off)" for off
    using ih by (auto intro!: names_token_intros statement_leaf_names_token)
  have 8: "names_token tokens (parse_repeat_statement tokens (Suc n) off)" for off
    using ih by (auto intro!: names_token_intros)
  from 1 2 3 4 5 6 7 8 show ?case by blast
qed

lemma parse_compound_statement_names_token:
  "names_token tokens (parse_compound_statement tokens n off)"
  by (rule statement_names_token [THEN conjunct2, THEN conjunct1, rule_format])

text \<open>
  \<^verbatim>\<open>parse_function_declaration\<close> has two throw statements of its own, with fixed messages;
  its callers hand them on.
\<close>

lemma reported_simps [simp]:
  "reported tokens (Inr p) = True"
  "reported tokens (Inl OutOfFuel) = True"
  "reported tokens (Inl (OutOfBounds i)) = True"
  "reported tokens (Inl (RuntimeError m off)) =
     (off < length tokens
      \<and> (m = ''Unexpected token '' @ value (tokens ! off)
         \<or> (m = ''Missing closing parenthesis''
            \<and> value (tokens ! off) \<noteq> '','' \<and> value (tokens ! off) \<noteq> '')'')
         \<or> m = ''Unexpected token''))"
  by (simp_all add: reported_def)

lemma names_token_reported:
  assumes "names_token tokens r"
  shows "reported tokens r"
proof (cases r)
  case (Inl e)
  with assms show ?thesis by (cases e) simp_all
next
  case (Inr p)
  then show ?thesis by simp
qed

lemma reported_bind:
  assumes "reported tokens m" and "\<And>a off. reported tokens (f a off)"
  shows "reported tokens (bind m f)"
proof (cases m)
  case (Inl e)
  with assms(1) show ?thesis by (cases e) simp_all
next
  case (Inr p)
  with assms(2) show ?thesis by (cases p) simp
qed

lemmas reported_intros =
  reported_bind
  names_token_check_token [THEN names_token_reported]
  names_token_match_token [THEN names_token_reported]
  names_token_extract_token [THEN names_token_reported]
  names_token_match_pattern [THEN names_token_reported]
  names_token_token_value [THEN names_token_reported]
  names_token_unexpected_token [THEN names_token_reported]
  parse_declarator_names_token [THEN names_token_reported]
  parse_parameter_declaration_names_token [THEN names_token_reported]
  parse_var_declaration_names_token [THEN names_token_reported]
  parse_compound_statement_names_token [THEN names_token_reported]

lemma parse_function_declaration_loop_reported:
  "reported tokens (parse_function_declaration_loop order tokens n args off)"
  by (induction n arbitrary: args off)
     (auto simp: bind_token_value intro!: reported_intros)

lemma parse_function_declaration_reported:
  "reported tokens (parse_function_declaration order tokens n off)"
  unfolding parse_function_declaration_def
  by (auto simp: bind_match_token intro!: reported_intros
      parse_function_declaration_loop_reported)

lemma parse_declaration_reported: "reported tokens (parse_declaration order tokens n off)"
  unfolding parse_declaration_def
  by (auto intro!: reported_intros parse_function_declaration_reported)

lemma parse_loop_reported: "reported tokens (parse_loop order tokens n ds off)"
  by (induction n arbitrary: ds off)
     (auto intro!: reported_intros parse_declaration_reported)

lemma parse_declaration_names_token:
  assumes "match_pattern tokens [TYPE_tok, IDENTIFIER, LPAREN] off = Inr (False, off)"
    and "match_pattern tokens [TYPE_tok, MULTIPLY, IDENTIFIER, LPAREN] off = Inr (False, off)"
  shows "names_token tokens (parse_declaration order tokens n off)"
  unfolding parse_declaration_def using assms
  by (auto intro!: names_token_intros parse_var_declaration_names_token)

lemma missing_closing_parenthesis:
  assumes "parse_parameter_declaration order tokens n off = Inr (p, off1)"
    and "off1 < length tokens"
    and "value (tokens ! off1) \<noteq> '',''" and "value (tokens ! off1) \<noteq> '')''"
  shows "parse_function_declaration_loop order tokens (Suc n) args off =
           Inl (RuntimeError ''Missing closing parenthesis'' off1)"
  using assms by (simp add: bind_token_value)

section \<open>Every successful call moves forward\<close>

lemma reaches_simps [simp]:
  "reaches tokens lo (Inl e) = True"
  "reaches tokens lo (Inr (a, off)) = (lo \<le> off \<and> off \<le> length tokens)"
  by (simp_all add: reaches_def)

lemma reaches_bind:
  assumes "reaches tokens lo m"
    and "\<And>a off. lo \<le> off \<Longrightarrow> off \<le> length tokens \<Longrightarrow> reaches tokens lo (f a off)"
  shows "reaches tokens lo (bind m f)"
proof (cases m)
  case (Inl e)
  then show ?thesis by simp
next
  case (Inr p)
  with assms show ?thesis by (cases p) simp
qed

lemma reaches_match_pattern:
  "lo \<le> off \<Longrightarrow> off \<le> length tokens \<Longrightarrow> reaches tokens lo (match_pattern tokens expected off)"
  by (simp add: match_pattern_def split: sum.splits)

lemma expression_reaches:
  "(\<forall>off lo. lo \<le> Suc off \<longrightarrow> reaches tokens lo (parse_expression tokens n off))
    \<and> (\<forall>off lo mp. lo \<le> Suc off \<longrightarrow> reaches tokens lo (parse_binary_expression tokens n mp off))
    \<and> (\<forall>off lo mp lhs. lo \<le> off \<longrightarrow>
          reaches tokens lo (parse_binary_expression_loop tokens n mp lhs off))
    \<and> (\<forall>off lo. lo \<le> Suc off \<longrightarrow> reaches tokens lo (parse_unary_expression tokens n off))
    \<and> (\<forall>off lo. lo \<le> Suc off \<longrightarrow> reaches tokens lo (parse_postfix_expression tokens n off))
    \<and> (\<forall>off lo base. lo \<le> off \<longrightarrow>
          reaches tokens lo (parse_postfix_expression_loop tokens n base off))
    \<and> (\<forall>off lo. lo \<le> Suc off \<longrightarrow>
          reaches tokens lo (parse_function_call_expression tokens n off))
    \<and> (\<forall>off lo args. lo \<le> Suc off \<longrightarrow>
          reaches tokens lo (parse_function_call_expression_loop tokens n args off))
    \<and> (\<forall>off lo. lo \<le> Suc off \<longrightarrow> reaches tokens lo (parse_subscript_expression tokens n off))
    \<and> (\<forall>off lo. lo \<le> Suc off \<longrightarrow> reaches tokens lo (parse_primary_expression tokens n off))
    \<and> (\<forall>off lo. lo \<le> Suc off \<longrightarrow>
          reaches tokens lo (parse_parenthesized_expression tokens n off))"
proof (induction n)
  case 0
  show ?case by simp
next
  case (Suc n)
  note ih =
    Suc.IH [THEN conjunct1, rule_format]
    Suc.IH [THEN conjunct2, THEN conjunct1, rule_format]
    Suc.IH [THEN conjunct2, THEN conjunct2, THEN conjunct1, rule_format]
    Suc.IH [THEN conjunct2, THEN conjunct2, THEN conjunct2, THEN conjunct1, rule_format]
    Suc.IH [THEN conjunct2, THEN conjunct2, THEN conjunct2, THEN conjunct2, THEN conjunct1, rule_format]
    Suc.IH [THEN conjunct2, THEN conjunct2, THEN conjunct2, THEN conjunct2, THEN conjunct2, THEN conjunct1, rule_format]
    Suc.IH [THEN conjunct2, THEN conjunct2, THEN conjunct2, THEN conjunct2, THEN conjunct2, THEN conjunct2, THEN conjunct1, rule_format]
    Suc.IH [THEN conjunct2, THEN conjunct2, THEN conjunct2, THEN conjunct2, THEN conjunct2, THEN conjunct2, THEN conjunct2, THEN conjunct1, rule_format]
    Suc.IH [THEN conjunct2, THEN conjunct2, THEN conjunct2, THEN conjunct2, THEN conjunct2, THEN conjunct2, THEN conjunct2, THEN conjunct2, THEN conjunct1, rule_format]
    Suc.IH [THEN conjunct2, THEN conjunct2, THEN conjunct2, THEN conjunct2, THEN conjunct2, THEN conjunct2, THEN conjunct2, THEN conjunct2, THEN conjunct2, THEN conjunct1, rule_format]
    Suc.IH [THEN conjunct2, THEN conjunct2, THEN conjunct2, THEN conjunct2, THEN conjunct2, THEN conjunct2, THEN conjunct2, THEN conjunct2, THEN conjunct2, THEN conjunct2, rule_format]
  have 1: "reaches tokens lo (parse_expression tokens (Suc n) off)" if "lo \<le> Suc off" for off lo
    using that by (simp add: ih)
  have 2: "reaches tokens lo (parse_binary_expression tokens (Suc n) mp off)"
    if "lo \<le> Suc off" for off lo mp
    using that by (auto intro!: reaches_bind ih)
  have 3: "reaches tokens lo (parse_binary_expression_loop tokens (Suc n) mp lhs off)"
    if "lo \<le> off" for off lo mp lhs
    using that by (auto simp: cursor_simps intro!: reaches_bind ih split: option.splits)
  have 4: "reaches tokens lo (parse_unary_expression tokens (Suc n) off)"
    if "lo \<le> Suc off" for off lo
    using that by (auto simp: cursor_simps intro!: reaches_bind ih)
  have 5: "reaches tokens lo (parse_postfix_expression tokens (Suc n) off)"
    if "lo \<le> Suc off" for off lo
    using that by (auto intro!: reaches_bind ih)
  have 6: "reaches tokens lo (parse_postfix_expression_loop tokens (Suc n) base off)"
    if "lo \<le> off" for off lo base
    using that by (auto simp: cursor_simps intro!: reaches_bind ih)
  have 7: "reaches tokens lo (parse_function_call_expression tokens (Suc n) off)"
    if "lo \<le> Suc off" for off lo
    using that by (auto simp: cursor_simps intro!: reaches_bind ih)
  have 8: "reaches tokens lo (parse_function_call_expression_loop tokens (Suc n) args off)"
    if "lo \<le> Suc off" for off lo args
    using that by (auto simp: cursor_simps intro!: reaches_bind ih)
  have 9: "reaches tokens lo (parse_subscript_expression tokens (Suc n) off)"
    if "lo \<le> Suc off" for off lo
    using that by (auto simp: cursor_simps intro!: reaches_bind ih)
  have 10: "reaches tokens lo (parse_primary_expression tokens (Suc n) off)"
    if "lo \<le> Suc off" for off lo
    using that by (auto simp: cursor_simps intro!: reaches_bind ih)
  have 11: "reaches tokens lo (parse_parenthesized_expression tokens (Suc n) off)"
    if "lo \<le> Suc off" for off lo
    using that by (auto simp: cursor_simps intro!: reaches_bind ih)
  show ?case
    by (intro conjI allI impI; (rule 1 2 3 4 5 6 7 8 9 10 11, assumption))
qed

lemma parse_expression_reaches:
  "lo \<le> Suc off \<Longrightarrow> reaches tokens lo (parse_expression tokens n off)"
  by (rule expression_reaches [THEN conjunct1, rule_format])

lemma match_pattern_from_True:
  "match_pattern_from tokens (e # expected) i = Inr True \<Longrightarrow> i < length tokens"
  by (simp split: if_splits)

lemma parse_declarator_reaches:
  "lo \<le> Suc off \<Longrightarrow> reaches tokens lo (parse_declarator tokens off)"
  unfolding parse_declarator_def
  by (auto simp: cursor_simps split: sum.splits)

lemma parse_init_declarator_reaches:
  "lo \<le> Suc off \<Longrightarrow> reaches tokens lo (parse_init_declarator tokens n off)"
  unfolding parse_init_declarator_def
  by (auto simp: cursor_simps intro!: reaches_bind parse_declarator_reaches
      parse_expression_reaches)

lemma parse_parameter_declaration_reaches:
  "lo \<le> Suc off \<Longrightarrow> reaches tokens lo (parse_parameter_declaration order tokens n off)"
  unfolding parse_parameter_declaration_def
  by (cases order)
     (auto simp: cursor_simps intro!: reaches_bind parse_init_declarator_reaches)

lemma parse_var_declaration_loop_reaches:
  "lo \<le> Suc off \<Longrightarrow> reaches tokens lo (parse_var_declaration_loop tokens n ds off)"
  by (induction n arbitrary: ds off)
     (auto simp: cursor_simps intro!: reaches_bind parse_init_declarator_reaches)

lemma parse_var_declaration_reaches:
  "lo \<le> Suc off \<Longrightarrow> reaches tokens lo (parse_var_declaration tokens n off)"
  unfolding parse_var_declaration_def
  by (auto simp: cursor_simps intro!: reaches_bind parse_var_declaration_loop_reaches)

lemma parse_jump_statement_reaches:
  "lo \<le> Suc off \<Longrightarrow> reaches tokens lo (parse_jump_statement tokens n off)"
  unfolding parse_jump_statement_def parse_break_statement_def parse_continue_statement_def
    parse_return_statement_def
  by (auto simp: cursor_simps intro!: reaches_bind parse_expression_reaches)

lemma parse_declaration_statement_reaches:
  "lo \<le> Suc off \<Longrightarrow> reaches tokens lo (parse_declaration_statement tokens n off)"
  unfolding parse_declaration_statement_def
  by (auto intro!: reaches_bind parse_var_declaration_reaches)

lemma parse_expression_statement_reaches:
  "lo \<le> Suc off \<Longrightarrow> reaches tokens lo (parse_expression_statement tokens n off)"
  unfolding parse_expression_statement_def
  by (auto simp: cursor_simps intro!: reaches_bind parse_expression_reaches)

lemmas statement_leaf_reaches =
  parse_expression_reaches parse_jump_statement_reaches parse_declaration_statement_reaches
  parse_expression_statement_reaches

lemma statement_reaches:
  "(\<forall>off lo. lo \<le> Suc off \<longrightarrow> reaches tokens lo (parse_statement tokens n off))
    \<and> (\<forall>off lo. lo \<le> Suc off \<longrightarrow> reaches tokens lo (parse_compound_statement tokens n off))
    \<and> (\<forall>off lo ss. lo \<le> Suc off \<longrightarrow>
          reaches tokens lo (parse_compound_statement_loop tokens n ss off))
    \<and> (\<forall>off lo. lo \<le> Suc off \<longrightarrow>
          reaches tokens lo (parse_conditional_statement tokens n off))
    \<and> (\<forall>off lo bs. lo \<le> off \<longrightarrow>
          reaches tokens lo (parse_conditional_statement_loop tokens n bs off))
    \<and> (\<forall>off lo. lo \<le> Suc off \<longrightarrow> reaches tokens lo (parse_loop_statement tokens n off))
    \<and> (\<forall>off lo. lo \<le> Suc off \<longrightarrow> reaches tokens lo (parse_while_statement tokens n off))
    \<and> (\<forall>off lo. lo \<le> Suc off \<longrightarrow> reaches tokens lo (parse_repeat_statement tokens n off))"
proof (induction n)
  case 0
  show ?case by simp
next
  case (Suc n)
  note ih =
    Suc.IH [THEN conjunct1, rule_format]
    Suc.IH [THEN conjunct2, THEN conjunct1, rule_format]
    Suc.IH [THEN conjunct2, THEN conjunct2, THEN conjunct1, rule_format]
    Suc.IH [THEN conjunct2, THEN conjunct2, THEN conjunct2, THEN conjunct1, rule_format]
    Suc.IH [THEN conjunct2, THEN conjunct2, THEN conjunct2, THEN conjunct2, THEN conjunct1,
      rule_format]
    Suc.IH [THEN conjunct2, THEN conjunct2, THEN conjunct2, THEN conjunct2, THEN conjunct2,
      THEN conjunct1, rule_format]
    Suc.IH [THEN conjunct2, THEN conjunct2, THEN conjunct2, THEN conjunct2, THEN conjunct2,
      THEN conjunct2, THEN conjunct1, rule_format]
    Suc.IH [THEN conjunct2, THEN conjunct2, THEN conjunct2, THEN conjunct2, THEN conjunct2,
      THEN conjunct2, THEN conjunct2, rule_format]
  have 1: "reaches tokens lo (parse_statement tokens (Suc n) off)" if "lo \<le> Suc off" for off lo
    using that by (auto simp: cursor_simps intro!: reaches_bind ih statement_leaf_reaches)
  have 2: "reaches tokens lo (parse_compound_statement tokens (Suc n) off)"
    if "lo \<le> Suc off" for off lo
    using that by (simp add: ih)
  have 3: "reaches tokens lo (parse_compound_statement_loop tokens (Suc n) ss off)"
    if "lo \<le> Suc off" for off lo ss
    using that by (auto simp: cursor_simps intro!: reaches_bind ih)
  have 4: "reaches tokens lo (parse_conditional_statement tokens (Suc n) off)"
    if "lo \<le> Suc off" for off lo
    using that by (auto simp: cursor_simps intro!: reaches_bind ih statement_leaf_reaches)
  have 5: "reaches tokens lo (parse_conditional_statement_loop tokens (Suc n) bs off)"
    if "lo \<le> off" for off lo bs
    using that by (auto simp: cursor_simps intro!: reaches_bind ih statement_leaf_reaches)
  have 6: "reaches tokens lo (parse_loop_statement tokens (Suc n) off)"
    if "lo \<le> Suc off" for off lo
    using that
    by (auto simp: cursor_simps parse_for_statement_def intro!: reaches_bind ih)
  have 7: "reaches tokens lo (parse_while_statement tokens (Suc n) off)"
    if "lo \<le> Suc off" for off lo
    using that by (auto simp: cursor_simps intro!: reaches_bind ih statement_leaf_reaches)
  have 8: "reaches tokens lo (parse_repeat_statement tokens (Suc n) off)"
    if "lo \<le> Suc off" for off lo
    using that by (auto simp: cursor_simps intro!: reaches_bind ih)
  show ?case
    by (intro conjI allI impI; (rule 1 2 3 4 5 6 7 8, assumption))
qed

lemma parse_compound_statement_reaches:
  "lo \<le> Suc off \<Longrightarrow> reaches tokens lo (parse_compound_statement tokens n off)"
  by (rule statement_reaches [THEN conjunct2, THEN conjunct1, rule_format])

lemma parse_function_declaration_loop_reaches:
  "lo \<le> Suc off \<Longrightarrow> reaches tokens lo (parse_function_declaration_loop order tokens n args off)"
  by (induction n arbitrary: args off)
     (auto simp: cursor_simps intro!: reaches_bind parse_parameter_declaration_reaches)

lemma parse_function_declaration_reaches:
  "lo \<le> Suc off \<Longrightarrow> reaches tokens lo (parse_function_declaration order tokens n off)"
  unfolding parse_function_declaration_def
  by (auto simp: cursor_simps intro!: reaches_bind parse_declarator_reaches
      parse_function_declaration_loop_reaches parse_compound_statement_reaches)

lemma parse_declaration_reaches:
  "lo \<le> Suc off \<Longrightarrow> reaches tokens lo (parse_declaration order tokens n off)"
  unfolding parse_declaration_def
  by (auto simp: cursor_simps split: sum.splits intro!: reaches_bind
      parse_function_declaration_reaches parse_var_declaration_reaches)

section \<open>Enough fuel\<close>

text \<open>
  A call that starts with \<open>r\<close> tokens left finishes with fuel \<open>10 * r\<close> plus the number
  of calls it can make before the next token is consumed (at most 7, for a compound
  statement that starts with an expression).
\<close>

lemma finishes_simps [simp]:
  "finishes (Inr p) = True"
  "finishes (Inl (RuntimeError m off)) = True"
  "finishes (Inl (OutOfBounds i)) = True"
  "finishes (Inl OutOfFuel) = False"
  by (simp_all add: finishes_def)

lemma finishes_bind:
  assumes "finishes m" and "\<And>a off. m = Inr (a, off) \<Longrightarrow> finishes (f a off)"
  shows "finishes (bind m f)"
proof (cases m)
  case (Inl e)
  with assms(1) show ?thesis by (cases e) simp_all
next
  case (Inr p)
  with assms(2) show ?thesis by (cases p) simp
qed

lemma reachesD:
  "reaches tokens lo r \<Longrightarrow> r = Inr (a, off') \<Longrightarrow> lo \<le> off' \<and> off' \<le> length tokens"
  by simp

lemmas expression_advance =
  expression_reaches [THEN conjunct1, rule_format, OF order_refl, THEN reachesD]
  expression_reaches [THEN conjunct2, THEN conjunct1, rule_format, OF order_refl,
    THEN reachesD]
  expression_reaches [THEN conjunct2, THEN conjunct2, THEN conjunct1, rule_format,
    OF order_refl, THEN reachesD]
  expression_reaches [THEN conjunct2, THEN conjunct2, THEN conjunct2, THEN conjunct1,
    rule_format, OF order_refl, THEN reachesD]
  expression_reaches [THEN conjunct2, THEN conjunct2, THEN conjunct2, THEN conjunct2,
    THEN conjunct1, rule_format, OF order_refl, THEN reachesD]
  expression_reaches [THEN conjunct2, THEN conjunct2, THEN conjunct2, THEN conjunct2,
    THEN conjunct2, THEN conjunct1, rule_format, OF order_refl, THEN reachesD]
  expression_reaches [THEN conjunct2, THEN conjunct2, THEN conjunct2, THEN conjunct2,
    THEN conjunct2, THEN conjunct2, THEN conjunct1, rule_format, OF order_refl,
    THEN reachesD]
  expression_reaches [THEN conjunct2, THEN conjunct2, THEN conjunct2, THEN conjunct2,
    THEN conjunct2, THEN conjunct2, THEN conjunct2, THEN conjunct1, rule_format,
    OF order_refl, THEN reachesD]
  expression_reaches [THEN conjunct2, THEN conjunct2, THEN conjunct2, THEN conjunct2,
    THEN conjunct2, THEN conjunct2, THEN conjunct2, THEN conjunct2, THEN conjunct1,
    rule_format, OF order_refl, THEN reachesD]
  expression_reaches [THEN conjunct2, THEN conjunct2, THEN conjunct2, THEN conjunct2,
    THEN conjunct2, THEN conjunct2, THEN conjunct2, THEN conjunct2, THEN conjunct2,
    THEN conjunct1, rule_format, OF order_refl, THEN reachesD]
  expression_reaches [THEN conjunct2, THEN conjunct2, THEN conjunct2, THEN conjunct2,
    THEN conjunct2, THEN conjunct2, THEN conjunct2, THEN conjunct2, THEN conjunct2,
    THEN conjunct2, rule_format, OF order_refl, THEN reachesD]

lemma expression_finishes:
  "(\<forall>off. 10 * (length tokens - off) + 4 < n \<longrightarrow>
        finishes (parse_expression tokens n off))
    \<and> (\<forall>off mp. 10 * (length tokens - off) + 3 < n \<longrightarrow>
        finishes (parse_binary_expression tokens n mp off))
    \<and> (\<forall>off mp lhs. 10 * (length tokens - off) < n \<longrightarrow>
        finishes (parse_binary_expression_loop tokens n mp lhs off))
    \<and> (\<forall>off. 10 * (length tokens - off) + 2 < n \<longrightarrow>
        finishes (parse_unary_expression tokens n off))
    \<and> (\<forall>off. 10 * (length tokens - off) + 1 < n \<longrightarrow>
        finishes (parse_postfix_expression tokens n off))
    \<and> (\<forall>off base. 10 * (length tokens - off) < n \<longrightarrow>
        finishes (parse_postfix_expression_loop tokens n base off))
    \<and> (\<forall>off. 10 * (length tokens - off) + 6 < n \<longrightarrow>
        finishes (parse_function_call_expression tokens n off))
    \<and> (\<forall>off args. 10 * (length tokens - off) + 5 < n \<longrightarrow>
        finishes (parse_function_call_expression_loop tokens n args off))
    \<and> (\<forall>off. 10 * (length tokens - off) + 5 < n \<longrightarrow>
        finishes (parse_subscript_expression tokens n off))
    \<and> (\<forall>off. 10 * (length tokens - off) < n \<longrightarrow>
        finishes (parse_primary_expression tokens n off))
    \<and> (\<forall>off. 10 * (length tokens - off) + 5 < n \<longrightarrow>
        finishes (parse_parenthesized_expression tokens n off))"
proof (induction n)
  case 0
  show ?case by simp
next
  case (Suc n)
  note ih =
    Suc.IH [THEN conjunct1, rule_format]
    Suc.IH [THEN conjunct2, THEN conjunct1, rule_format]
    Suc.IH [THEN conjunct2, THEN conjunct2, THEN conjunct1, rule_format]
    Suc.IH [THEN conjunct2, THEN conjunct2, THEN conjunct2, THEN conjunct1, rule_format]
    Suc.IH [THEN conjunct2, THEN conjunct2, THEN conjunct2, THEN conjunct2, THEN conjunct1,
      rule_format]
    Suc.IH [THEN conjunct2, THEN conjunct2, THEN conjunct2, THEN conjunct2, THEN conjunct2,
      THEN conjunct1, rule_format]
    Suc.IH [THEN conjunct2, THEN conjunct2, THEN conjunct2, THEN conjunct2, THEN conjunct2,
      THEN conjunct2, THEN conjunct1, rule_format]
    Suc.IH [THEN conjunct2, THEN conjunct2, THEN conjunct2, THEN conjunct2, THEN conjunct2,
      THEN conjunct2, THEN conjunct2, THEN conjunct1, rule_format]
    Suc.IH [THEN conjunct2, THEN conjunct2, THEN conjunct2, THEN conjunct2, THEN conjunct2,
      THEN conjunct2, THEN conjunct2, THEN conjunct2, THEN conjunct1, rule_format]
    Suc.IH [THEN conjunct2, THEN conjunct2, THEN conjunct2, THEN conjunct2, THEN conjunct2,
      THEN conjunct2, THEN conjunct2, THEN conjunct2, THEN conjunct2, THEN conjunct1,
      rule_format]
    Suc.IH [THEN conjunct2, THEN conjunct2, THEN conjunct2, THEN conjunct2, THEN conjunct2,
      THEN conjunct2, THEN conjunct2, THEN conjunct2, THEN conjunct2, THEN conjunct2,
      rule_format]
  have 1: "finishes (parse_expression tokens (Suc n) off)"
    if "10 * (length tokens - off) + 4 < Suc n" for off
    using that by (simp add: ih)
  have 2: "finishes (parse_binary_expression tokens (Suc n) mp off)"
    if "10 * (length tokens - off) + 3 < Suc n" for off mp
    using that by (auto intro!: finishes_bind ih dest!: expression_advance)
  have 3: "finishes (parse_binary_expression_loop tokens (Suc n) mp lhs off)"
    if "10 * (length tokens - off) < Suc n" for off mp lhs
    using that
    by (auto simp: cursor_simps intro!: finishes_bind ih dest!: expression_advance
        split: option.splits)
  have 4: "finishes (parse_unary_expression tokens (Suc n) off)"
    if "10 * (length tokens - off) + 2 < Suc n" for off
    using that
    by (auto simp: cursor_simps intro!: finishes_bind ih dest!: expression_advance)
  have 5: "finishes (parse_postfix_expression tokens (Suc n) off)"
    if "10 * (length tokens - off) + 1 < Suc n" for off
    using that
    by (auto simp: cursor_simps intro!: finishes_bind ih dest!: expression_advance)
  have 6: "finishes (parse_postfix_expression_loop tokens (Suc n) base off)"
    if "10 * (length tokens - off) < Suc n" for off base
    using that
    by (auto simp: cursor_simps intro!: finishes_bind ih dest!: expression_advance)
  have 7: "finishes (parse_function_call_expression tokens (Suc n) off)"
    if "10 * (length tokens - off) + 6 < Suc n" for off
    using that
    by (auto simp: cursor_simps intro!: finishes_bind ih dest!: expression_advance)
  have 8: "finishes (parse_function_call_expression_loop tokens (Suc n) args off)"
    if "10 * (length tokens - off) + 5 < Suc n" for off args
    using that
    by (auto simp: cursor_simps intro!: finishes_bind ih dest!: expression_advance)
  have 9: "finishes (parse_subscript_expression tokens (Suc n) off)"
    if "10 * (length tokens - off) + 5 < Suc n" for off
    using that
    by (auto simp: cursor_simps intro!: finishes_bind ih dest!: expression_advance)
  have 10: "finishes (parse_primary_expression tokens (Suc n) off)"
    if "10 * (length tokens - off) < Suc n" for off
    using that
    by (auto simp: cursor_simps intro!: finishes_bind ih dest!: expression_advance)
  have 11: "finishes (parse_parenthesized_expression tokens (Suc n) off)"
    if "10 * (length tokens - off) + 5 < Suc n" for off
    using that
    by (auto simp: cursor_simps intro!: finishes_bind ih dest!: expression_advance)
  show ?case
    by (intro conjI allI impI; (rule 1 2 3 4 5 6 7 8 9 10 11, assumption))
qed

lemmas parse_expression_advance =
  parse_expression_reaches [OF order_refl, THEN reachesD]

lemmas parse_declarator_advance =
  parse_declarator_reaches [OF order_refl, THEN reachesD]

lemmas parse_init_declarator_advance =
  parse_init_declarator_reaches [OF order_refl, THEN reachesD]

lemmas parse_parameter_declaration_advance =
  parse_parameter_declaration_reaches [OF order_refl, THEN reachesD]

lemmas parse_var_declaration_loop_advance =
  parse_var_declaration_loop_reaches [OF order_refl, THEN reachesD]

lemmas parse_function_declaration_loop_advance =
  parse_function_declaration_loop_reaches [OF order_refl, THEN reachesD]

lemmas parse_declaration_advance =
  parse_declaration_reaches [OF order_refl, THEN reachesD]

lemmas statement_advance =
  statement_reaches [THEN conjunct1, rule_format, OF order_refl, THEN reachesD]
  statement_reaches [THEN conjunct2, THEN conjunct1, rule_format, OF order_refl,
    THEN reachesD]
  statement_reaches [THEN conjunct2, THEN conjunct2, THEN conjunct1, rule_format,
    OF order_refl, THEN reachesD]
  statement_reaches [THEN conjunct2, THEN conjunct2, THEN conjunct2, THEN conjunct1,
    rule_format, OF order_refl, THEN reachesD]
  statement_reaches [THEN conjunct2, THEN conjunct2, THEN conjunct2, THEN conjunct2,
    THEN conjunct1, rule_format, OF order_refl, THEN reachesD]
  statement_reaches [THEN conjunct2, THEN conjunct2, THEN conjunct2, THEN conjunct2,
    THEN conjunct2, THEN conjunct1, rule_format, OF order_refl, THEN reachesD]
  statement_reaches [THEN conjunct2, THEN conjunct2, THEN conjunct2, THEN conjunct2,
    THEN conjunct2, THEN conjunct2, THEN conjunct1, rule_format, OF order_refl,
    THEN reachesD]
  statement_reaches [THEN conjunct2, THEN conjunct2, THEN conjunct2, THEN conjunct2,
    THEN conjunct2, THEN conjunct2, THEN conjunct2, rule_format, OF order_refl,
    THEN reachesD]

lemma parse_expression_finishes:
  "10 * (length tokens - off) + 4 < n \<Longrightarrow> finishes (parse_expression tokens n off)"
  by (rule expression_finishes [THEN conjunct1, rule_format])

lemma parse_declarator_finishes: "finishes (parse_declarator tokens off)"
  unfolding parse_declarator_def
  by (auto simp: cursor_simps split: sum.splits)

lemma parse_init_declarator_finishes:
  "10 * (length tokens - off) < n \<Longrightarrow> finishes (parse_init_declarator tokens n off)"
  unfolding parse_init_declarator_def
  by (auto simp: cursor_simps intro!: finishes_bind parse_declarator_finishes
      parse_expression_finishes dest!: parse_declarator_advance)

lemma parse_parameter_declaration_finishes:
  "10 * (length tokens - off) < n \<Longrightarrow> finishes (parse_parameter_declaration order tokens n off)"
  unfolding parse_parameter_declaration_def
  by (cases order)
     (auto simp: cursor_simps intro!: finishes_bind parse_init_declarator_finishes)

lemma parse_var_declaration_loop_finishes:
  "10 * (length tokens - off) + 1 < n
   \<Longrightarrow> finishes (parse_var_declaration_loop tokens n ds off)"
  by (induction n arbitrary: ds off)
     (auto simp: cursor_simps intro!: finishes_bind parse_init_declarator_finishes
      dest!: parse_init_declarator_advance)

lemma parse_var_declaration_finishes:
  "10 * (length tokens - off) < n \<Longrightarrow> finishes (parse_var_declaration tokens n off)"
  unfolding parse_var_declaration_def
  by (auto simp: cursor_simps intro!: finishes_bind parse_var_declaration_loop_finishes)

lemma parse_jump_statement_finishes:
  "10 * (length tokens - off) < n \<Longrightarrow> finishes (parse_jump_statement tokens n off)"
  unfolding parse_jump_statement_def parse_break_statement_def parse_continue_statement_def
    parse_return_statement_def
  by (auto simp: cursor_simps intro!: finishes_bind parse_expression_finishes)

lemma parse_declaration_statement_finishes:
  "10 * (length tokens - off) < n \<Longrightarrow> finishes (parse_declaration_statement tokens n off)"
  unfolding parse_declaration_statement_def
  by (auto intro!: finishes_bind parse_var_declaration_finishes)

lemma parse_expression_statement_finishes:
  "10 * (length tokens - off) + 4 < n
   \<Longrightarrow> finishes (parse_expression_statement tokens n off)"
  unfolding parse_expression_statement_def
  by (auto simp: cursor_simps intro!: finishes_bind parse_expression_finishes)

lemmas statement_leaf_finishes =
  parse_expression_finishes parse_jump_statement_finishes
  parse_declaration_statement_finishes parse_expression_statement_finishes

lemma statement_finishes:
  "(\<forall>off. 10 * (length tokens - off) + 5 < n \<longrightarrow>
        finishes (parse_statement tokens n off))
    \<and> (\<forall>off. 10 * (length tokens - off) + 7 < n \<longrightarrow>
        finishes (parse_compound_statement tokens n off))
    \<and> (\<forall>off ss. 10 * (length tokens - off) + 6 < n \<longrightarrow>
        finishes (parse_compound_statement_loop tokens n ss off))
    \<and> (\<forall>off. 10 * (length tokens - off) < n \<longrightarrow>
        finishes (parse_conditional_statement tokens n off))
    \<and> (\<forall>off bs. 10 * (length tokens - off) < n \<longrightarrow>
        finishes (parse_conditional_statement_loop tokens n bs off))
    \<and> (\<forall>off. 10 * (length tokens - off) < n \<longrightarrow>
        finishes (parse_loop_statement tokens n off))
    \<and> (\<forall>off. 10 * (length tokens - off) < n \<longrightarrow>
        finishes (parse_while_statement tokens n off))
    \<and> (\<forall>off. 10 * (length tokens - off) + 6 < n \<longrightarrow>
        finishes (parse_repeat_statement tokens n off))"
proof (induction n)
  case 0
  show ?case by simp
next
  case (Suc n)
  note ih =
    Suc.IH [THEN conjunct1, rule_format]
    Suc.IH [THEN conjunct2, THEN conjunct1, rule_format]
    Suc.IH [THEN conjunct2, THEN conjunct2, THEN conjunct1, rule_format]
    Suc.IH [THEN conjunct2, THEN conjunct2, THEN conjunct2, THEN conjunct1, rule_format]
    Suc.IH [THEN conjunct2, THEN conjunct2, THEN conjunct2, THEN conjunct2, THEN conjunct1,
      rule_format]
    Suc.IH [THEN conjunct2, THEN conjunct2, THEN conjunct2, THEN conjunct2, THEN conjunct2,
      THEN conjunct1, rule_format]
    Suc.IH [THEN conjunct2, THEN conjunct2, THEN conjunct2, THEN conjunct2, THEN conjunct2,
      THEN conjunct2, THEN conjunct1, rule_format]
    Suc.IH [THEN conjunct2, THEN conjunct2, THEN conjunct2, THEN conjunct2, THEN conjunct2,
      THEN conjunct2, THEN conjunct2, rule_format]
  have 1: "finishes (parse_statement tokens (Suc n) off)"
    if "10 * (length tokens - off) + 5 < Suc n" for off
    using that
    by (auto simp: cursor_simps intro!: finishes_bind ih statement_leaf_finishes)
  have 2: "finishes (parse_compound_statement tokens (Suc n) off)"
    if "10 * (length tokens - off) + 7 < Suc n" for off
    using that by (simp add: ih)
  have 3: "finishes (parse_compound_statement_loop tokens (Suc n) ss off)"
    if "10 * (length tokens - off) + 6 < Suc n" for off ss
    using that
    by (auto simp: cursor_simps intro!: finishes_bind ih dest!: statement_advance)
  have 4: "finishes (parse_conditional_statement tokens (Suc n) off)"
    if "10 * (length tokens - off) < Suc n" for off
    using that
    by (auto simp: cursor_simps intro!: finishes_bind ih statement_leaf_finishes
        dest!: statement_advance parse_expression_advance; arith)
  have 5: "finishes (parse_conditional_statement_loop tokens (Suc n) bs off)"
    if "10 * (length tokens - off) < Suc n" for off bs
    using that
    by (auto simp: cursor_simps intro!: finishes_bind ih statement_leaf_finishes
        dest!: statement_advance parse_expression_advance; arith)
  have 6: "finishes (parse_loop_statement tokens (Suc n) off)"
    if "10 * (length tokens - off) < Suc n" for off
    using that
    by (auto simp: cursor_simps parse_for_statement_def intro!: finishes_bind ih)
  have 7: "finishes (parse_while_statement tokens (Suc n) off)"
    if "10 * (length tokens - off) < Suc n" for off
    using that
    by (auto simp: cursor_simps intro!: finishes_bind ih statement_leaf_finishes
        dest!: statement_advance parse_expression_advance; arith)
  have 8: "finishes (parse_repeat_statement tokens (Suc n) off)"
    if "10 * (length tokens - off) + 6 < Suc n" for off
    using that
    by (auto simp: cursor_simps intro!: finishes_bind ih)
  show ?case
    by (intro conjI allI impI; (rule 1 2 3 4 5 6 7 8, assumption))
qed

lemma parse_compound_statement_finishes:
  "10 * (length tokens - off) + 7 < n \<Longrightarrow> finishes (parse_compound_statement tokens n off)"
  by (rule statement_finishes [THEN conjunct2, THEN conjunct1, rule_format])

lemma parse_function_declaration_loop_finishes:
  "10 * (length tokens - off) + 1 < n
   \<Longrightarrow> finishes (parse_function_declaration_loop order tokens n args off)"
  by (induction n arbitrary: args off)
     (auto simp: cursor_simps intro!: finishes_bind parse_parameter_declaration_finishes
      dest!: parse_parameter_declaration_advance)

lemma parse_function_declaration_finishes:
  "10 * (length tokens - off) < n \<Longrightarrow> finishes (parse_function_declaration order tokens n off)"
  unfolding parse_function_declaration_def
  by (auto simp: cursor_simps intro!: finishes_bind parse_declarator_finishes
      parse_function_declaration_loop_finishes parse_compound_statement_finishes
      dest!: parse_declarator_advance parse_function_declaration_loop_advance; arith)

lemma parse_declaration_finishes:
  "10 * (length tokens - off) < n \<Longrightarrow> finishes (parse_declaration order tokens n off)"
  unfolding parse_declaration_def
  by (auto simp: cursor_simps split: sum.splits intro!: finishes_bind
      parse_function_declaration_finishes parse_var_declaration_finishes)

lemma parse_loop_finishes:
  "10 * (length tokens - off) + 1 < n \<Longrightarrow> finishes (parse_loop order tokens n ds off)"
  by (induction n arbitrary: ds off)
     (auto simp: cursor_simps intro!: finishes_bind parse_declaration_finishes
      dest!: parse_declaration_advance)

lemma parse_finishes: "parse order tokens (10 * length tokens + 2 + k) \<noteq> Inl OutOfFuel"
proof -
  have "finishes (parse_loop order tokens (10 * length tokens + 2 + k) [] 0)"
    by (rule parse_loop_finishes) simp
  then show ?thesis by (simp add: parse_def finishes_def)
qed

section \<open>More fuel changes nothing\<close>

lemma extends_refl [simp]: "extends r r"
  by (simp add: extends_def)

lemma extends_OutOfFuel [simp]: "extends (Inl OutOfFuel) r"
  by (simp add: extends_def)

lemma extends_bind:
  assumes "extends m m'" and "\<And>a off. extends (f a off) (f' a off)"
  shows "extends (bind m f) (bind m' f')"
proof (cases "m = Inl OutOfFuel")
  case True
  then show ?thesis by simp
next
  case False
  with assms(1) have eq: "m' = m" by (simp add: extends_def)
  show ?thesis
  proof (cases m)
    case (Inl e)
    with eq show ?thesis by simp
  next
    case (Inr p)
    with eq assms(2) show ?thesis by (cases p) simp
  qed
qed

lemma expression_extends:
  "(\<forall>off. extends (parse_expression tokens n off) (parse_expression tokens (n + k) off))
    \<and> (\<forall>off mp. extends (parse_binary_expression tokens n mp off)
          (parse_binary_expression tokens (n + k) mp off))
    \<and> (\<forall>off mp lhs. extends (parse_binary_expression_loop tokens n mp lhs off)
          (parse_binary_expression_loop tokens (n + k) mp lhs off))
    \<and> (\<forall>off. extends (parse_unary_expression tokens n off)
          (parse_unary_expression tokens (n + k) off))
    \<and> (\<forall>off. extends (parse_postfix_expression tokens n off)
          (parse_postfix_expression tokens (n + k) off))
    \<and> (\<forall>off base. extends (parse_postfix_expression_loop tokens n base off)
          (parse_postfix_expression_loop tokens (n + k) base off))
    \<and> (\<forall>off. extends (parse_function_call_expression tokens n off)
          (parse_function_call_expression tokens (n + k) off))
    \<and> (\<forall>off args. extends (parse_function_call_expression_loop tokens n args off)
          (parse_function_call_expression_loop tokens (n + k) args off))
    \<and> (\<forall>off. extends (parse_subscript_expression tokens n off)
          (parse_subscript_expression tokens (n + k) off))
    \<and> (\<forall>off. extends (parse_primary_expression tokens n off)
          (parse_primary_expression tokens (n + k) off))
    \<and> (\<forall>off. extends (parse_parenthesized_expression tokens n off)
          (parse_parenthesized_expression tokens (n + k) off))"
proof (induction n)
  case 0
  show ?case by simp
next
  case (Suc n)
  note ih =
    Suc.IH [THEN conjunct1, rule_format]
    Suc.IH [THEN conjunct2, THEN conjunct1, rule_format]
    Suc.IH [THEN conjunct2, THEN conjunct2, THEN conjunct1, rule_format]
    Suc.IH [THEN conjunct2, THEN conjunct2, THEN conjunct2, THEN conjunct1, rule_format]
    Suc.IH [THEN conjunct2, THEN conjunct2, THEN conjunct2, THEN conjunct2, THEN conjunct1,
      rule_format]
    Suc.IH [THEN conjunct2, THEN conjunct2, THEN conjunct2, THEN conjunct2, THEN conjunct2,
      THEN conjunct1, rule_format]
    Suc.IH [THEN conjunct2, THEN conjunct2, THEN conjunct2, THEN conjunct2, THEN conjunct2,
      THEN conjunct2, THEN conjunct1, rule_format]
    Suc.IH [THEN conjunct2, THEN conjunct2, THEN conjunct2, THEN conjunct2, THEN conjunct2,
      THEN conjunct2, THEN conjunct2, THEN conjunct1, rule_format]
    Suc.IH [THEN conjunct2, THEN conjunct2, THEN conjunct2, THEN conjunct2, THEN conjunct2,
      THEN conjunct2, THEN conjunct2, THEN conjunct2, THEN conjunct1, rule_format]
    Suc.IH [THEN conjunct2, THEN conjunct2, THEN conjunct2, THEN conjunct2, THEN conjunct2,
      THEN conjunct2, THEN conjunct2, THEN conjunct2, THEN conjunct2, THEN conjunct1,
      rule_format]
    Suc.IH [THEN conjunct2, THEN conjunct2, THEN conjunct2, THEN conjunct2, THEN conjunct2,
      THEN conjunct2, THEN conjunct2, THEN conjunct2, THEN conjunct2, THEN conjunct2,
      rule_format]
  have 1: "extends (parse_expression tokens (Suc n) off)
      (parse_expression tokens (Suc n + k) off)" for off
    by (simp add: ih)
  have 2: "extends (parse_binary_expression tokens (Suc n) mp off)
      (parse_binary_expression tokens (Suc n + k) mp off)" for off mp
    by (auto intro!: extends_bind ih)
  have 3: "extends (parse_binary_expression_loop tokens (Suc n) mp lhs off)
      (parse_binary_expression_loop tokens (Suc n + k) mp lhs off)" for off mp lhs
    by (auto intro!: extends_bind ih split: option.splits)
  have 4: "extends (parse_unary_expression tokens (Suc n) off)
      (parse_unary_expression tokens (Suc n + k) off)" for off
    by (auto intro!: extends_bind ih)
  have 5: "extends (parse_postfix_expression tokens (Suc n) off)
      (parse_postfix_expression tokens (Suc n + k) off)" for off
    by (auto intro!: extends_bind ih)
  have 6: "extends (parse_postfix_expression_loop tokens (Suc n) base off)
      (parse_postfix_expression_loop tokens (Suc n + k) base off)" for off base
    by (auto intro!: extends_bind ih)
  have 7: "extends (parse_function_call_expression tokens (Suc n) off)
      (parse_function_call_expression tokens (Suc n + k) off)" for off
    by (auto intro!: extends_bind ih)
  have 8: "extends (parse_function_call_expression_loop tokens (Suc n) args off)
      (parse_function_call_expression_loop tokens (Suc n + k) args off)" for off args
    by (auto intro!: extends_bind ih)
  have 9: "extends (parse_subscript_expression tokens (Suc n) off)
      (parse_subscript_expression tokens (Suc n + k) off)" for off
    by (auto intro!: extends_bind ih)
  have 10: "extends (parse_primary_expression tokens (Suc n) off)
      (parse_primary_expression tokens (Suc n + k) off)" for off
    by (auto intro!: extends_bind ih)
  have 11: "extends (parse_parenthesized_expression tokens (Suc n) off)
      (parse_parenthesized_expression tokens (Suc n + k) off)" for off
    by (auto intro!: extends_bind ih)
  show ?case
    by (intro conjI allI; rule 1 2 3 4 5 6 7 8 9 10 11)
qed

lemma parse_expression_extends:
  "extends (parse_expression tokens n off) (parse_expression tokens (n + k) off)"
  by (rule expression_extends [THEN conjunct1, rule_format])

lemma parse_init_declarator_extends:
  "extends (parse_init_declarator tokens n off) (parse_init_declarator tokens (n + k) off)"
  unfolding parse_init_declarator_def
  by (auto intro!: extends_bind parse_expression_extends)

lemma parse_parameter_declaration_extends:
  "extends (parse_parameter_declaration order tokens n off)
     (parse_parameter_declaration order tokens (n + k) off)"
  unfolding parse_parameter_declaration_def
  by (cases order) (auto intro!: extends_bind parse_init_declarator_extends)

lemma parse_var_declaration_loop_extends:
  "extends (parse_var_declaration_loop tokens n ds off)
     (parse_var_declaration_loop tokens (n + k) ds off)"
  by (induction n arbitrary: ds off)
     (auto intro!: extends_bind parse_init_declarator_extends)

lemma parse_var_declaration_extends:
  "extends (parse_var_declaration tokens n off) (parse_var_declaration tokens (n + k) off)"
  unfolding parse_var_declaration_def
  by (auto intro!: extends_bind parse_var_declaration_loop_extends)

lemma parse_jump_statement_extends:
  "extends (parse_jump_statement tokens n off) (parse_jump_statement tokens (n + k) off)"
  unfolding parse_jump_statement_def parse_return_statement_def
  by (auto intro!: extends_bind parse_expression_extends)

lemma parse_declaration_statement_extends:
  "extends (parse_declaration_statement tokens n off)
     (parse_declaration_statement tokens (n + k) off)"
  unfolding parse_declaration_statement_def
  by (auto intro!: extends_bind parse_var_declaration_extends)

lemma parse_expression_statement_extends:
  "extends (parse_expression_statement tokens n off)
     (parse_expression_statement tokens (n + k) off)"
  unfolding parse_expression_statement_def
  by (auto intro!: extends_bind parse_expression_extends)

lemmas statement_leaf_extends =
  parse_expression_extends parse_jump_statement_extends parse_declaration_statement_extends
  parse_expression_statement_extends

lemma statement_extends:
  "(\<forall>off. extends (parse_statement tokens n off) (parse_statement tokens (n + k) off))
    \<and> (\<forall>off. extends (parse_compound_statement tokens n off)
          (parse_compound_statement tokens (n + k) off))
    \<and> (\<forall>off ss. extends (parse_compound_statement_loop tokens n ss off)
          (parse_compound_statement_loop tokens (n + k) ss off))
    \<and> (\<forall>off. extends (parse_conditional_statement tokens n off)
          (parse_conditional_statement tokens (n + k) off))
    \<and> (\<forall>off bs. extends (parse_conditional_statement_loop tokens n bs off)
          (parse_conditional_statement_loop tokens (n + k) bs off))
    \<and> (\<forall>off. extends (parse_loop_statement tokens n off)
          (parse_loop_statement tokens (n + k) off))
    \<and> (\<forall>off. extends (parse_while_statement tokens n off)
          (parse_while_statement tokens (n + k) off))
    \<and> (\<forall>off. extends (parse_repeat_statement tokens n off)
          (parse_repeat_statement tokens (n + k) off))"
proof (induction n)
  case 0
  show ?case by simp
next
  case (Suc n)
  note ih =
    Suc.IH [THEN conjunct1, rule_format]
    Suc.IH [THEN conjunct2, THEN conjunct1, rule_format]
    Suc.IH [THEN conjunct2, THEN conjunct2, THEN conjunct1, rule_format]
    Suc.IH [THEN conjunct2, THEN conjunct2, THEN conjunct2, THEN conjunct1, rule_format]
    Suc.IH [THEN conjunct2, THEN conjunct2, THEN conjunct2, THEN conjunct2, THEN conjunct1,
      rule_format]
    Suc.IH [THEN conjunct2, THEN conjunct2, THEN conjunct2, THEN conjunct2, THEN conjunct2,
      THEN conjunct1, rule_format]
    Suc.IH [THEN conjunct2, THEN conjunct2, THEN conjunct2, THEN conjunct2, THEN conjunct2,
      THEN conjunct2, THEN conjunct1, rule_format]
    Suc.IH [THEN conjunct2, THEN conjunct2, THEN conjunct2, THEN conjunct2, THEN conjunct2,
      THEN conjunct2, THEN conjunct2, rule_format]
  have 1: "extends (parse_statement tokens (Suc n) off)
      (parse_statement tokens (Suc n + k) off)" for off
    by (auto intro!: extends_bind ih statement_leaf_extends)
  have 2: "extends (parse_compound_statement tokens (Suc n) off)
      (parse_compound_statement tokens (Suc n + k) off)" for off
    by (simp add: ih)
  have 3: "extends (parse_compound_statement_loop tokens (Suc n) ss off)
      (parse_compound_statement_loop tokens (Suc n + k) ss off)" for off ss
    by (auto intro!: extends_bind ih)
  have 4: "extends (parse_conditional_statement tokens (Suc n) off)
      (parse_conditional_statement tokens (Suc n + k) off)" for off
    by (auto intro!: extends_bind ih statement_leaf_extends)
  have 5: "extends (parse_conditional_statement_loop tokens (Suc n) bs off)
      (parse_conditional_statement_loop tokens (Suc n + k) bs off)" for off bs
    by (auto intro!: extends_bind ih statement_leaf_extends)
  have 6: "extends (parse_loop_statement tokens (Suc n) off)
      (parse_loop_statement tokens (Suc n + k) off)" for off
    by (auto intro!: extends_bind ih)
  have 7: "extends (parse_while_statement tokens (Suc n) off)
      (parse_while_statement tokens (Suc n + k) off)" for off
    by (auto intro!: extends_bind ih statement_leaf_extends)
  have 8: "extends (parse_repeat_statement tokens (Suc n) off)
      (parse_repeat_statement tokens (Suc n + k) off)" for off
    by (auto intro!: extends_bind ih)
  show ?case
    by (intro conjI allI; rule 1 2 3 4 5 6 7 8)
qed

lemma parse_compound_statement_extends:
  "extends (parse_compound_statement tokens n off)
     (parse_compound_statement tokens (n + k) off)"
  by (rule statement_extends [THEN conjunct2, THEN conjunct1, rule_format])

lemma parse_function_declaration_loop_extends:
  "extends (parse_function_declaration_loop order tokens n args off)
     (parse_function_declaration_loop order tokens (n + k) args off)"
  by (induction n arbitrary: args off)
     (auto intro!: extends_bind parse_parameter_declaration_extends)

lemma parse_function_declaration_extends:
  "extends (parse_function_declaration order tokens n off)
     (parse_function_declaration order tokens (n + k) off)"
  unfolding parse_function_declaration_def
  by (auto intro!: extends_bind parse_function_declaration_loop_extends
      parse_compound_statement_extends)

lemma parse_declaration_extends:
  "extends (parse_declaration order tokens n off) (parse_declaration order tokens (n + k) off)"
  unfolding parse_declaration_def
  by (auto intro!: extends_bind parse_function_declaration_extends
      parse_var_declaration_extends)

lemma parse_loop_extends:
  "extends (parse_loop order tokens n ds off) (parse_loop order tokens (n + k) ds off)"
  by (induction n arbitrary: ds off)
     (auto intro!: extends_bind parse_declaration_extends)

lemma parse_more_fuel:
  assumes "parse order tokens n \<noteq> Inl OutOfFuel"
  shows "parse order tokens (n + k) = parse order tokens n"
proof -
  have "extends (parse order tokens n) (parse order tokens (n + k))"
    unfolding parse_def by (rule parse_loop_extends)
  with assms show ?thesis by (simp add: extends_def)
qed

text \<open>
  So the model of \<^verbatim>\<open>parse\<close> is total: with fuel \<open>10 * length tokens + 2\<close> it has an
  outcome other than \<open>OutOfFuel\<close>, and every larger amount of fuel gives the same outcome.
\<close>

theorem parse_total:
  "parse order tokens (10 * length tokens + 2) \<noteq> Inl OutOfFuel
   \<and> parse order tokens (10 * length tokens + 2 + k) = parse order tokens (10 * length tokens + 2)"
proof -
  have "parse order tokens (10 * length tokens + 2) \<noteq> Inl OutOfFuel"
    using parse_finishes [of order tokens 0] by simp
  then show ?thesis using parse_more_fuel by blast
qed

section \<open>The claims\<close>

subsection \<open>Function-call arguments\<close>

text \<open>
  C1. The claim: a call postfix \<^verbatim>\<open>( e1 , ... , en )\<close> whose arguments are separated by
  single commas parses to a \<open>FunctionCallExpression\<close> with the arguments \<open>e1..en\<close>.
  \<^verbatim>\<open>parse_function_call_expression\<close> tests for the comma with \<^verbatim>\<open>match_token\<close>, which
  already consumes it, and then calls \<^verbatim>\<open>extract_token(Token::COMMA)\<close>, which demands a
  second one; the closing parenthesis of an empty list is treated the same way. So
  \<^verbatim>\<open>f(a, b)\<close> and \<^verbatim>\<open>f()\<close> are rejected, while \<^verbatim>\<open>f(a,, b)\<close> is accepted with the
  arguments \<open>a\<close> and \<open>b\<close>.
\<close>

theorem function_call_single_comma_rejected:
  "parse_expression
     [Token IDENTIFIER ''f'', Token LPAREN ''('', Token IDENTIFIER ''a'', Token COMMA '','',
      Token IDENTIFIER ''b'', Token RPAREN '')'', Token SEMICOLON '';'', Token END []]
     (n + 20) 0 = Inl (RuntimeError ''Unexpected token b'' 4)
   \<and> parse_expression
     [Token IDENTIFIER ''f'', Token LPAREN ''('', Token RPAREN '')'', Token SEMICOLON '';'',
      Token END []]
     (n + 20) 0 = Inl (RuntimeError ''Unexpected token ;'' 3)
   \<and> parse_expression
     [Token IDENTIFIER ''f'', Token LPAREN ''('', Token IDENTIFIER ''a'', Token COMMA '','',
      Token COMMA '','', Token IDENTIFIER ''b'', Token RPAREN '')'', Token SEMICOLON '';'',
      Token END []]
     (n + 20) 0 =
       Inr (FunctionCallExpression (IdentifierExpression ''f'')
              [IdentifierExpression ''a'', IdentifierExpression ''b''], 7)"
  by (simp add: numeral_eq_Suc cursor_simps operator_precedences_def unary_operators_def)

subsection \<open>Parameter declarations\<close>

text \<open>
  C2, as stated: a parameter followed by \<^verbatim>\<open>=\<close> and an expression is not accepted as a
  parameter with an initializer. It is, whichever argument the build evaluates first: read
  left to right, \<^verbatim>\<open>int x = 5\<close> parses to a parameter declaration whose init-declarator
  holds the initializer \<open>5\<close>; read right to left, \<^verbatim>\<open>x = 5 int\<close> does.
\<close>

theorem parameter_initializer_accepted:
  "parse_parameter_declaration LeftToRight
     [Token TYPE_tok ''int'', Token IDENTIFIER ''x'', Token ASSIGNMENT ''='',
      Token INTEGER_LITERAL ''5'', Token RPAREN '')'', Token SEMICOLON '';'', Token END []]
     12 0 =
   Inr (ParameterDeclaration ''int''
          (InitDeclarator (NoPtrDeclarator ''x'') (Some (IntLiteral ''5''))), 4)
   \<and> parse_parameter_declaration RightToLeft
     [Token IDENTIFIER ''x'', Token ASSIGNMENT ''='', Token INTEGER_LITERAL ''5'',
      Token TYPE_tok ''int'', Token RPAREN '')'', Token SEMICOLON '';'', Token END []]
     12 0 =
   Inr (ParameterDeclaration ''int''
          (InitDeclarator (NoPtrDeclarator ''x'') (Some (IntLiteral ''5''))), 4)"
  by (simp add: numeral_eq_Suc parse_parameter_declaration_def parse_init_declarator_def
      parse_declarator_def cursor_simps operator_precedences_def unary_operators_def)

text \<open>
  C2, amended: every parsed parameter declaration consists of a type token and one
  init-declarator, that is a declarator, and an initializer exactly when an assignment token
  follows the declarator: the initializer is then the expression parsed after that token.
  The type token stands before the init-declarator or after it, according to the order in
  which the build evaluates the two arguments.
\<close>

theorem parameter_declaration_shape:
  assumes "parse_parameter_declaration order tokens n offset =
             Inr (ParameterDeclaration type_name (InitDeclarator d init), offset')"
  shows "\<exists>start off1 stop.
           parse_declarator tokens start = Inr (d, off1) \<and> off1 < length tokens
         \<and> (case init of
               None \<Rightarrow> type (tokens ! off1) \<noteq> ASSIGNMENT \<and> stop = off1
             | Some e \<Rightarrow> type (tokens ! off1) = ASSIGNMENT
                        \<and> parse_expression tokens n (Suc off1) = Inr (e, stop))
         \<and> (case order of
               LeftToRight \<Rightarrow>
                 start = Suc offset \<and> offset' = stop \<and> offset < length tokens
                 \<and> type (tokens ! offset) = TYPE_tok \<and> type_name = value (tokens ! offset)
             | RightToLeft \<Rightarrow>
                 start = offset \<and> offset' = Suc stop \<and> stop < length tokens
                 \<and> type (tokens ! stop) = TYPE_tok \<and> type_name = value (tokens ! stop))"
proof (cases order)
  case LeftToRight
  with assms show ?thesis
    by (auto simp: parse_parameter_declaration_def parse_init_declarator_def bind_def
        extract_token_def match_token_def check_token_def
        split: if_splits sum.splits prod.splits)
next
  case RightToLeft
  with assms show ?thesis
    by (auto simp: parse_parameter_declaration_def parse_init_declarator_def bind_def
        extract_token_def match_token_def check_token_def
        split: if_splits sum.splits prod.splits)
qed

theorem parameter_declaration_shape_witness:
  "parse_parameter_declaration RightToLeft
     [Token IDENTIFIER ''x'', Token ASSIGNMENT ''='', Token INTEGER_LITERAL ''5'',
      Token TYPE_tok ''int'', Token RPAREN '')'']
     12 0 =
   Inr (ParameterDeclaration ''int''
          (InitDeclarator (NoPtrDeclarator ''x'') (Some (IntLiteral ''5''))), 4)
   \<and> (\<exists>start off1 stop.
         parse_declarator
           [Token IDENTIFIER ''x'', Token ASSIGNMENT ''='', Token INTEGER_LITERAL ''5'',
            Token TYPE_tok ''int'', Token RPAREN '')''] start
           = Inr (NoPtrDeclarator ''x'', off1)
       \<and> off1 < length
           [Token IDENTIFIER ''x'', Token ASSIGNMENT ''='', Token INTEGER_LITERAL ''5'',
            Token TYPE_tok ''int'', Token RPAREN '')'']
       \<and> (case Some (IntLiteral ''5'') of
             None \<Rightarrow>
               type ([Token IDENTIFIER ''x'', Token ASSIGNMENT ''='',
                 Token INTEGER_LITERAL ''5'', Token TYPE_tok ''int'', Token RPAREN '')'']
                 ! off1) \<noteq> ASSIGNMENT \<and> stop = off1
           | Some e \<Rightarrow>
               type ([Token IDENTIFIER ''x'', Token ASSIGNMENT ''='',
                 Token INTEGER_LITERAL ''5'', Token TYPE_tok ''int'', Token RPAREN '')'']
                 ! off1) = ASSIGNMENT
               \<and> parse_expression
                   [Token IDENTIFIER ''x'', Token ASSIGNMENT ''='',
                    Token INTEGER_LITERAL ''5'', Token TYPE_tok ''int'', Token RPAREN '')'']
                   12 (Suc off1) = Inr (e, stop))
       \<and> (case RightToLeft of
             LeftToRight \<Rightarrow>
               start = Suc 0 \<and> 4 = stop
               \<and> 0 < length
                   [Token IDENTIFIER ''x'', Token ASSIGNMENT ''='',
                    Token INTEGER_LITERAL ''5'', Token TYPE_tok ''int'', Token RPAREN '')'']
               \<and> type ([Token IDENTIFIER ''x'', Token ASSIGNMENT ''='',
                   Token INTEGER_LITERAL ''5'', Token TYPE_tok ''int'', Token RPAREN '')'']
                   ! 0) = TYPE_tok
               \<and> ''int'' = value ([Token IDENTIFIER ''x'', Token ASSIGNMENT ''='',
                   Token INTEGER_LITERAL ''5'', Token TYPE_tok ''int'', Token RPAREN '')'']
                   ! 0)
           | RightToLeft \<Rightarrow>
               start = 0 \<and> 4 = Suc stop
               \<and> stop < length
                   [Token IDENTIFIER ''x'', Token ASSIGNMENT ''='',
                    Token INTEGER_LITERAL ''5'', Token TYPE_tok ''int'', Token RPAREN '')'']
               \<and> type ([Token IDENTIFIER ''x'', Token ASSIGNMENT ''='',
                   Token INTEGER_LITERAL ''5'', Token TYPE_tok ''int'', Token RPAREN '')'']
                   ! stop) = TYPE_tok
               \<and> ''int'' = value ([Token IDENTIFIER ''x'', Token ASSIGNMENT ''='',
                   Token INTEGER_LITERAL ''5'', Token TYPE_tok ''int'', Token RPAREN '')'']
                   ! stop)))"
proof -
  let ?ts = "[Token IDENTIFIER ''x'', Token ASSIGNMENT ''='', Token INTEGER_LITERAL ''5'',
      Token TYPE_tok ''int'', Token RPAREN '')'']"
  have p: "parse_parameter_declaration RightToLeft ?ts 12 0 =
     Inr (ParameterDeclaration ''int''
            (InitDeclarator (NoPtrDeclarator ''x'') (Some (IntLiteral ''5''))), 4)"
    by (simp add: numeral_eq_Suc parse_parameter_declaration_def parse_init_declarator_def
        parse_declarator_def cursor_simps operator_precedences_def unary_operators_def)
  from p parameter_declaration_shape [OF p] show ?thesis by (rule conjI)
qed

subsection \<open>Error messages\<close>

text \<open>
  C3, as stated: whenever \<^verbatim>\<open>parse\<close> fails, the error carries the text of the token at
  the position where parsing failed, also for a malformed parameter list. After the first
  parameter of a function declaration the parser wants a comma or a closing parenthesis;
  on any other token it throws the message \<^verbatim>\<open>Missing closing parenthesis\<close>, in which the
  text of that token does not occur. Read left to right, \<^verbatim>\<open>int f(int x int y);\<close> stops so
  on the second \<^verbatim>\<open>int\<close>; read right to left, \<^verbatim>\<open>int f(x int y int);\<close> stops so on
  \<^verbatim>\<open>y\<close>.
\<close>

theorem missing_parenthesis_message_has_no_token:
  "parse LeftToRight
     [Token TYPE_tok ''int'', Token IDENTIFIER ''f'', Token LPAREN ''('',
      Token TYPE_tok ''int'', Token IDENTIFIER ''x'', Token TYPE_tok ''int'',
      Token IDENTIFIER ''y'', Token RPAREN '')'', Token SEMICOLON '';'', Token END []]
     12 = Inl (RuntimeError ''Missing closing parenthesis'' 5)
   \<and> value ([Token TYPE_tok ''int'', Token IDENTIFIER ''f'', Token LPAREN ''('',
      Token TYPE_tok ''int'', Token IDENTIFIER ''x'', Token TYPE_tok ''int'',
      Token IDENTIFIER ''y'', Token RPAREN '')'', Token SEMICOLON '';'', Token END []] ! 5)
       = ''int''
   \<and> \<not> sublist ''int'' ''Missing closing parenthesis''
   \<and> parse RightToLeft
     [Token TYPE_tok ''int'', Token IDENTIFIER ''f'', Token LPAREN ''('',
      Token IDENTIFIER ''x'', Token TYPE_tok ''int'', Token IDENTIFIER ''y'',
      Token TYPE_tok ''int'', Token RPAREN '')'', Token SEMICOLON '';'', Token END []]
     12 = Inl (RuntimeError ''Missing closing parenthesis'' 5)
   \<and> value ([Token TYPE_tok ''int'', Token IDENTIFIER ''f'', Token LPAREN ''('',
      Token IDENTIFIER ''x'', Token TYPE_tok ''int'', Token IDENTIFIER ''y'',
      Token TYPE_tok ''int'', Token RPAREN '')'', Token SEMICOLON '';'', Token END []] ! 5)
       = ''y''
   \<and> \<not> sublist ''y'' ''Missing closing parenthesis''"
  by (simp add: numeral_eq_Suc parse_def parse_declaration_def parse_function_declaration_def
      parse_parameter_declaration_def parse_init_declarator_def parse_declarator_def
      cursor_simps sublist_Cons_right)

text \<open>
  C3, amended. Every throw statement outside \<^verbatim>\<open>parse_function_declaration\<close> raises
  \<^verbatim>\<open>Unexpected token\<close>, a space and the text of the token at the offset where the parser
  stopped: so do the expression parser, the statement parser, \<^verbatim>\<open>parse_declarator\<close>,
  \<^verbatim>\<open>parse_var_declaration\<close>, \<^verbatim>\<open>parse_parameter_declaration\<close>, and
  \<^verbatim>\<open>parse_declaration\<close> when its lookahead does not find a function declaration. In the
  parameter list of a function declaration, a parsed parameter followed by a token whose
  text is neither a comma nor a closing parenthesis raises the fixed message
  \<^verbatim>\<open>Missing closing parenthesis\<close>. So a failure of \<^verbatim>\<open>parse\<close> stops at a token of the
  vector, and its message names that token or is \<^verbatim>\<open>Missing closing parenthesis\<close> at a
  token that neither separates nor closes the list. Nothing is said about the message raised
  when a function declaration is followed by neither a brace nor a terminator (the bare
  \<^verbatim>\<open>Unexpected token\<close>).
\<close>

theorem parse_error_names_token:
  "names_token tokens (parse_expression tokens n off)
   \<and> names_token tokens (parse_statement tokens n off)
   \<and> names_token tokens (parse_compound_statement tokens n off)
   \<and> names_token tokens (parse_declarator tokens off)
   \<and> names_token tokens (parse_var_declaration tokens n off)
   \<and> names_token tokens (parse_parameter_declaration order tokens n off)
   \<and> (match_pattern tokens [TYPE_tok, IDENTIFIER, LPAREN] off = Inr (False, off)
       \<and> match_pattern tokens [TYPE_tok, MULTIPLY, IDENTIFIER, LPAREN] off = Inr (False, off)
      \<longrightarrow> names_token tokens (parse_declaration order tokens n off))
   \<and> (parse_parameter_declaration order tokens n off = Inr (p, off1)
       \<and> off1 < length tokens
       \<and> value (tokens ! off1) \<noteq> '','' \<and> value (tokens ! off1) \<noteq> '')''
      \<longrightarrow> parse_function_declaration_loop order tokens (Suc n) args off =
            Inl (RuntimeError ''Missing closing parenthesis'' off1))
   \<and> (parse order tokens n = Inl (RuntimeError m off') \<and> m \<noteq> ''Unexpected token''
      \<longrightarrow> off' < length tokens
          \<and> (m = ''Unexpected token '' @ value (tokens ! off')
             \<or> (m = ''Missing closing parenthesis''
                \<and> value (tokens ! off') \<noteq> '','' \<and> value (tokens ! off') \<noteq> '')'')))"
proof (intro conjI impI)
  show "names_token tokens (parse_expression tokens n off)"
    by (rule parse_expression_names_token)
  show "names_token tokens (parse_statement tokens n off)"
    by (rule statement_names_token [THEN conjunct1, rule_format])
  show "names_token tokens (parse_compound_statement tokens n off)"
    by (rule parse_compound_statement_names_token)
  show "names_token tokens (parse_declarator tokens off)"
    by (rule parse_declarator_names_token)
  show "names_token tokens (parse_var_declaration tokens n off)"
    by (rule parse_var_declaration_names_token)
  show "names_token tokens (parse_parameter_declaration order tokens n off)"
    by (rule parse_parameter_declaration_names_token)
next
  assume "match_pattern tokens [TYPE_tok, IDENTIFIER, LPAREN] off = Inr (False, off)
    \<and> match_pattern tokens [TYPE_tok, MULTIPLY, IDENTIFIER, LPAREN] off = Inr (False, off)"
  then show "names_token tokens (parse_declaration order tokens n off)"
    by (simp add: parse_declaration_names_token)
next
  assume h: "parse_parameter_declaration order tokens n off = Inr (p, off1)
    \<and> off1 < length tokens
    \<and> value (tokens ! off1) \<noteq> '','' \<and> value (tokens ! off1) \<noteq> '')''"
  then have "parse_parameter_declaration order tokens n off = Inr (p, off1)"
    and "off1 < length tokens"
    and "value (tokens ! off1) \<noteq> '',''" and "value (tokens ! off1) \<noteq> '')''"
    by simp_all
  then show "parse_function_declaration_loop order tokens (Suc n) args off =
      Inl (RuntimeError ''Missing closing parenthesis'' off1)"
    by (rule missing_closing_parenthesis)
next
  assume a: "parse order tokens n = Inl (RuntimeError m off') \<and> m \<noteq> ''Unexpected token''"
  have "reported tokens (parse order tokens n)"
    unfolding parse_def by (rule parse_loop_reported)
  with a show "off' < length tokens"
    by simp
  from a \<open>reported tokens (parse order tokens n)\<close>
  show "m = ''Unexpected token '' @ value (tokens ! off')
      \<or> (m = ''Missing closing parenthesis''
         \<and> value (tokens ! off') \<noteq> '','' \<and> value (tokens ! off') \<noteq> '')'')"
    by simp
qed

theorem parse_error_names_token_witness:
  "parse RightToLeft [Token TYPE_tok ''int'', Token IDENTIFIER ''x'', Token END ''EOF''] 12
     = Inl (RuntimeError ''Unexpected token EOF'' 2)
   \<and> ''Unexpected token EOF'' \<noteq> ''Unexpected token''
   \<and> (2::nat) < length [Token TYPE_tok ''int'', Token IDENTIFIER ''x'', Token END ''EOF'']
   \<and> ''Unexpected token EOF'' = ''Unexpected token '' @
        value ([Token TYPE_tok ''int'', Token IDENTIFIER ''x'', Token END ''EOF''] ! 2)
   \<and> match_pattern [Token TYPE_tok ''int'', Token IDENTIFIER ''x'', Token END ''EOF'']
        [TYPE_tok, IDENTIFIER, LPAREN] 0 = Inr (False, 0)
   \<and> match_pattern [Token TYPE_tok ''int'', Token IDENTIFIER ''x'', Token END ''EOF'']
        [TYPE_tok, MULTIPLY, IDENTIFIER, LPAREN] 0 = Inr (False, 0)
   \<and> names_token [Token TYPE_tok ''int'', Token IDENTIFIER ''x'', Token END ''EOF'']
        (parse_declaration RightToLeft
           [Token TYPE_tok ''int'', Token IDENTIFIER ''x'', Token END ''EOF''] 11 0)
   \<and> parse_parameter_declaration RightToLeft
        [Token IDENTIFIER ''x'', Token TYPE_tok ''int'', Token IDENTIFIER ''y''] 11 0
        = Inr (ParameterDeclaration ''int'' (InitDeclarator (NoPtrDeclarator ''x'') None), 2)
   \<and> parse_function_declaration_loop RightToLeft
        [Token IDENTIFIER ''x'', Token TYPE_tok ''int'', Token IDENTIFIER ''y''] (Suc 11) [] 0
        = Inl (RuntimeError ''Missing closing parenthesis'' 2)"
proof -
  let ?ts = "[Token TYPE_tok ''int'', Token IDENTIFIER ''x'', Token END ''EOF'']"
  let ?ps = "[Token IDENTIFIER ''x'', Token TYPE_tok ''int'', Token IDENTIFIER ''y'']"
  have p: "parse RightToLeft ?ts 12 = Inl (RuntimeError ''Unexpected token EOF'' 2)"
    by (simp add: numeral_eq_Suc parse_def parse_declaration_def parse_var_declaration_def
        parse_init_declarator_def parse_declarator_def cursor_simps)
  have m: "''Unexpected token EOF'' \<noteq> ''Unexpected token''" by simp
  have f: "match_pattern ?ts [TYPE_tok, IDENTIFIER, LPAREN] 0 = Inr (False, 0)"
    "match_pattern ?ts [TYPE_tok, MULTIPLY, IDENTIFIER, LPAREN] 0 = Inr (False, 0)"
    by (simp_all add: match_pattern_def)
  have q: "parse_parameter_declaration RightToLeft ?ps 11 0
      = Inr (ParameterDeclaration ''int'' (InitDeclarator (NoPtrDeclarator ''x'') None), 2)"
    by (simp add: numeral_eq_Suc parse_parameter_declaration_def parse_init_declarator_def
        parse_declarator_def cursor_simps)
  note t2 = parse_error_names_token
    [of ?ps 11 0 RightToLeft
        "ParameterDeclaration ''int'' (InitDeclarator (NoPtrDeclarator ''x'') None)"
        2 "[]" "''x''" 0]
  note last_conjunct = parse_error_names_token
    [THEN conjunct2, THEN conjunct2, THEN conjunct2, THEN conjunct2, THEN conjunct2,
     THEN conjunct2, THEN conjunct2, THEN conjunct2, rule_format]
  have a: "(2::nat) < length ?ts
      \<and> (''Unexpected token EOF'' = ''Unexpected token '' @ value (?ts ! 2)
         \<or> (''Unexpected token EOF'' = ''Missing closing parenthesis''
            \<and> value (?ts ! 2) \<noteq> '','' \<and> value (?ts ! 2) \<noteq> '')''))"
    by (rule last_conjunct [OF conjI [OF p m]])
  from t2 q have b: "parse_function_declaration_loop RightToLeft ?ps (Suc 11) [] 0
      = Inl (RuntimeError ''Missing closing parenthesis'' 2)"
    by simp
  from parse_error_names_token [of ?ts 11 0 RightToLeft] f
  have c: "names_token ?ts (parse_declaration RightToLeft ?ts 11 0)"
    by simp
  from p m a f q b c show ?thesis by simp
qed

subsection \<open>Associativity and precedence\<close>

text \<open>
  C4. Every operator of the precedence table groups to the right: for operators \<open>op1\<close> and
  \<open>op2\<close> of the table, \<open>op2\<close> of the same precedence as \<open>op1\<close> (for instance \<open>op1\<close> itself)
  or of a higher one, the tokens \<^verbatim>\<open>1 op1 2 op2 3 ;\<close> parse to
  \<open>BinaryOperation op1 1 (BinaryOperation op2 2 3)\<close>, because the right operand is parsed
  with the precedence of \<open>op1\<close> itself as the minimum. An operator is recognised by its
  text; its type tag only has to differ from the four tags that start a postfix. The parser
  stops before the terminator (offset 5) and needs a recursion depth of at most 12.
\<close>

theorem binary_operators_right_associative:
  assumes "operator_precedences op1 = Some p1" and "operator_precedences op2 = Some p2"
    and "p1 \<le> p2"
    and "ty1 \<notin> {INCREMENT, DECREMENT, LPAREN, LBRACKET}"
    and "ty2 \<notin> {INCREMENT, DECREMENT, LPAREN, LBRACKET}"
  shows "parse_expression
           (Token INTEGER_LITERAL ''1'' # Token ty1 op1 # Token INTEGER_LITERAL ''2'' #
            Token ty2 op2 # Token INTEGER_LITERAL ''3'' # Token SEMICOLON '';'' # rest)
           (n + 12) 0 =
         Inr (BinaryOperation op1 (IntLiteral ''1'')
                (BinaryOperation op2 (IntLiteral ''2'') (IntLiteral ''3'')), 5)"
proof -
  have semi: "operator_precedences '';'' = None"
    by (simp add: operator_precedences_def)
  have un: "''1'' \<notin> set unary_operators" "''2'' \<notin> set unary_operators"
    "''3'' \<notin> set unary_operators"
    by (simp_all add: unary_operators_def)
  from assms(1) have "0 \<le> p1" by (rule operator_precedences_nonneg)
  with assms semi un show ?thesis
    by (simp add: numeral_eq_Suc cursor_simps)
qed

theorem binary_operators_right_associative_witness:
  "operator_precedences ''-'' = Some 5 \<and> (5::int) \<le> 5
   \<and> Other ''MINUS'' \<notin> {INCREMENT, DECREMENT, LPAREN, LBRACKET}
   \<and> parse_expression
       [Token INTEGER_LITERAL ''1'', Token (Other ''MINUS'') ''-'', Token INTEGER_LITERAL ''2'',
        Token (Other ''MINUS'') ''-'', Token INTEGER_LITERAL ''3'', Token SEMICOLON '';'']
       12 0 =
     Inr (BinaryOperation ''-'' (IntLiteral ''1'')
            (BinaryOperation ''-'' (IntLiteral ''2'') (IntLiteral ''3'')), 5)"
proof -
  have p: "operator_precedences ''-'' = Some 5"
    by (simp add: operator_precedences_def)
  have le: "(5::int) \<le> 5" by simp
  have t: "Other ''MINUS'' \<notin> {INCREMENT, DECREMENT, LPAREN, LBRACKET}" by simp
  from binary_operators_right_associative [OF p p le t t, of "[]" 0] p t show ?thesis
    by simp
qed

text \<open>
  C5. Multiplicative operators bind tighter than additive ones: \<^verbatim>\<open>1 + 2 * 3\<close> parses to
  \<open>BinaryOperation + 1 (BinaryOperation * 2 3)\<close>. Since every operator groups to the right,
  that tree alone would also arise from equal precedences; the table gives the additive
  operators 5 and the multiplicative ones 6, and \<^verbatim>\<open>1 * 2 + 3\<close> parses to
  \<open>BinaryOperation + (BinaryOperation * 1 2) 3\<close>.
\<close>

theorem multiplicative_binds_tighter:
  "parse_expression
     (Token INTEGER_LITERAL ''1'' # Token (Other ''PLUS'') ''+'' # Token INTEGER_LITERAL ''2'' #
      Token MULTIPLY ''*'' # Token INTEGER_LITERAL ''3'' # Token SEMICOLON '';'' # rest)
     (n + 12) 0 =
   Inr (BinaryOperation ''+'' (IntLiteral ''1'')
          (BinaryOperation ''*'' (IntLiteral ''2'') (IntLiteral ''3'')), 5)
   \<and> parse_expression
     (Token INTEGER_LITERAL ''1'' # Token MULTIPLY ''*'' # Token INTEGER_LITERAL ''2'' #
      Token (Other ''PLUS'') ''+'' # Token INTEGER_LITERAL ''3'' # Token SEMICOLON '';'' # rest)
     (n + 12) 0 =
   Inr (BinaryOperation ''+''
          (BinaryOperation ''*'' (IntLiteral ''1'') (IntLiteral ''2'')) (IntLiteral ''3''), 5)
   \<and> map operator_precedences [''+'', ''-''] = [Some 5, Some 5]
   \<and> map operator_precedences [''*'', ''/'', ''%''] = [Some 6, Some 6, Some 6]"
  by (simp add: numeral_eq_Suc cursor_simps operator_precedences_def unary_operators_def)

subsection \<open>Reads stay inside the token vector\<close>

text \<open>
  C6, as stated: if the tokens end with the only end-of-input token, and its text is not an
  operator, no read of \<^verbatim>\<open>parse\<close> goes past it. The parameter list of a function
  declaration compares the text of the current token with a comma and a closing parenthesis
  and advances on a match, whatever the type: a sentinel whose text is \<^verbatim>\<open>)\<close> is stepped
  over, and the next read is at index 6 of a vector of 6 tokens. This happens in either
  order of evaluation, on a parameter written for that order.
\<close>

theorem sentinel_text_rparen_read_past_end:
  "type (last [Token TYPE_tok ''int'', Token IDENTIFIER ''f'', Token LPAREN ''('',
      Token TYPE_tok ''int'', Token IDENTIFIER ''x'', Token END '')'']) = END
   \<and> END \<notin> set (map type (butlast [Token TYPE_tok ''int'', Token IDENTIFIER ''f'',
      Token LPAREN ''('', Token TYPE_tok ''int'', Token IDENTIFIER ''x'', Token END '')'']))
   \<and> type (last [Token TYPE_tok ''int'', Token IDENTIFIER ''f'', Token LPAREN ''('',
      Token IDENTIFIER ''x'', Token TYPE_tok ''int'', Token END '')'']) = END
   \<and> END \<notin> set (map type (butlast [Token TYPE_tok ''int'', Token IDENTIFIER ''f'',
      Token LPAREN ''('', Token IDENTIFIER ''x'', Token TYPE_tok ''int'', Token END '')'']))
   \<and> operator_precedences '')'' = None
   \<and> '')'' \<notin> set unary_operators
   \<and> length [Token TYPE_tok ''int'', Token IDENTIFIER ''f'', Token LPAREN ''('',
      Token TYPE_tok ''int'', Token IDENTIFIER ''x'', Token END '')''] = 6
   \<and> parse LeftToRight [Token TYPE_tok ''int'', Token IDENTIFIER ''f'', Token LPAREN ''('',
      Token TYPE_tok ''int'', Token IDENTIFIER ''x'', Token END '')''] 12
       = Inl (OutOfBounds 6)
   \<and> length [Token TYPE_tok ''int'', Token IDENTIFIER ''f'', Token LPAREN ''('',
      Token IDENTIFIER ''x'', Token TYPE_tok ''int'', Token END '')''] = 6
   \<and> parse RightToLeft [Token TYPE_tok ''int'', Token IDENTIFIER ''f'', Token LPAREN ''('',
      Token IDENTIFIER ''x'', Token TYPE_tok ''int'', Token END '')''] 12
       = Inl (OutOfBounds 6)"
  by (simp add: numeral_eq_Suc parse_def parse_declaration_def parse_function_declaration_def
      parse_parameter_declaration_def parse_init_declarator_def parse_declarator_def
      cursor_simps operator_precedences_def unary_operators_def)

text \<open>
  C6, amended: if the tokens end with the only end-of-input token, and its text is not an
  operator of either table and is neither a comma nor a closing parenthesis
  (\<open>end_terminated\<close>), then \<^verbatim>\<open>parse\<close> never reads an index outside the vector, in either
  order of evaluation and however far it runs (for every amount of fuel); and it runs to
  its end: with fuel \<open>10 * length tokens + 2\<close> it returns or throws.
\<close>

theorem parse_reads_in_bounds:
  assumes "end_terminated tokens"
  shows "parse order tokens n \<noteq> Inl (OutOfBounds i)
       \<and> parse order tokens (10 * length tokens + 2) \<noteq> Inl OutOfFuel"
proof
  from assms have "0 < length tokens" by (simp add: end_terminated_def)
  with assms show "parse order tokens n \<noteq> Inl (OutOfBounds i)"
    unfolding parse_def by (rule parse_loop_in_bounds)
  show "parse order tokens (10 * length tokens + 2) \<noteq> Inl OutOfFuel"
    using parse_finishes [of order tokens 0] by simp
qed

theorem parse_reads_in_bounds_witness:
  "end_terminated [Token TYPE_tok ''int'', Token IDENTIFIER ''f'', Token LPAREN ''('',
      Token IDENTIFIER ''x'', Token TYPE_tok ''int'', Token END []]
   \<and> parse RightToLeft [Token TYPE_tok ''int'', Token IDENTIFIER ''f'', Token LPAREN ''('',
      Token IDENTIFIER ''x'', Token TYPE_tok ''int'', Token END []] 12 \<noteq> Inl (OutOfBounds 6)
   \<and> parse RightToLeft [Token TYPE_tok ''int'', Token IDENTIFIER ''f'', Token LPAREN ''('',
      Token IDENTIFIER ''x'', Token TYPE_tok ''int'', Token END []] 62 \<noteq> Inl OutOfFuel"
proof -
  have t: "end_terminated [Token TYPE_tok ''int'', Token IDENTIFIER ''f'', Token LPAREN ''('',
      Token IDENTIFIER ''x'', Token TYPE_tok ''int'', Token END []]"
    by (simp add: end_terminated_def operator_precedences_def unary_operators_def)
  from parse_reads_in_bounds [OF t, of RightToLeft 12 6] t show ?thesis by simp
qed

subsection \<open>The for statement\<close>

text \<open>
  C7. At a \<^verbatim>\<open>for\<close> keyword, \<^verbatim>\<open>parse_loop_statement\<close>, and \<^verbatim>\<open>parse_statement\<close> through it,
  consume the keyword and nothing else and return the \<open>ForStatement\<close> node, which has no
  children: the offset afterwards is that of the token after the keyword.
\<close>

theorem for_statement_consumes_keyword_only:
  assumes "offset < length tokens" and "type (tokens ! offset) = FOR"
  shows "parse_loop_statement tokens (Suc n) offset = Inr (ForStatement, Suc offset)
       \<and> parse_statement tokens (Suc (Suc n)) offset = Inr (ForStatement, Suc offset)"
  using assms by (simp add: cursor_simps parse_for_statement_def)

theorem for_statement_consumes_keyword_only_witness:
  "(0::nat) < length [Token FOR ''for'', Token LPAREN ''('', Token SEMICOLON '';'']
   \<and> type ([Token FOR ''for'', Token LPAREN ''('', Token SEMICOLON '';''] ! 0) = FOR
   \<and> parse_loop_statement [Token FOR ''for'', Token LPAREN ''('', Token SEMICOLON '';'']
        (Suc 0) 0 = Inr (ForStatement, Suc 0)
   \<and> parse_statement [Token FOR ''for'', Token LPAREN ''('', Token SEMICOLON '';'']
        (Suc (Suc 0)) 0 = Inr (ForStatement, Suc 0)"
proof -
  let ?ts = "[Token FOR ''for'', Token LPAREN ''('', Token SEMICOLON '';'']"
  have a: "0 < length ?ts" by simp
  have b: "type (?ts ! 0) = FOR" by simp
  from for_statement_consumes_keyword_only [OF a b, of 0] a b show ?thesis by simp
qed

subsection \<open>Cursor primitives\<close>

text \<open>
  C8. With the offset inside the vector, \<^verbatim>\<open>match_token\<close> returns whether the type of the
  current token is among the requested ones, and the offset is one more if it is, unchanged
  if not. \<^verbatim>\<open>match_pattern\<close> returns the offset it was given whatever its answer, and it
  answers whenever the vector holds as many tokens from the offset on as the pattern is long.
\<close>

theorem match_token_match_pattern_frame:
  "(offset < length tokens \<longrightarrow>
      match_token tokens expected offset =
        Inr (type (tokens ! offset) \<in> set expected,
             if type (tokens ! offset) \<in> set expected then Suc offset else offset))
   \<and> (match_pattern tokens pattern offset = Inr (b, offset') \<longrightarrow> offset' = offset)
   \<and> (offset + length pattern \<le> length tokens \<longrightarrow>
        (\<exists>b. match_pattern tokens pattern offset = Inr (b, offset)))"
proof (intro conjI impI)
  assume "offset < length tokens"
  then show "match_token tokens expected offset =
        Inr (type (tokens ! offset) \<in> set expected,
             if type (tokens ! offset) \<in> set expected then Suc offset else offset)"
    by (simp add: match_token_def check_token_def)
next
  assume "match_pattern tokens pattern offset = Inr (b, offset')"
  then show "offset' = offset"
    by (simp add: match_pattern_def split: sum.splits)
next
  assume "offset + length pattern \<le> length tokens"
  then obtain b where "match_pattern_from tokens pattern offset = Inr b"
    using match_pattern_from_total by blast
  then show "\<exists>b. match_pattern tokens pattern offset = Inr (b, offset)"
    by (simp add: match_pattern_def)
qed

theorem match_token_match_pattern_frame_witness:
  "(0::nat) < length [Token TYPE_tok ''int'', Token IDENTIFIER ''x'', Token SEMICOLON '';'']
   \<and> match_token [Token TYPE_tok ''int'', Token IDENTIFIER ''x'', Token SEMICOLON '';'']
        [TYPE_tok, IF] 0 = Inr (True, Suc 0)
   \<and> match_pattern [Token TYPE_tok ''int'', Token IDENTIFIER ''x'', Token SEMICOLON '';'']
        [TYPE_tok, IDENTIFIER] 0 = Inr (True, 0)
   \<and> 0 + length [TYPE_tok, IDENTIFIER]
       \<le> length [Token TYPE_tok ''int'', Token IDENTIFIER ''x'', Token SEMICOLON '';'']"
proof -
  let ?ts = "[Token TYPE_tok ''int'', Token IDENTIFIER ''x'', Token SEMICOLON '';'']"
  have m: "match_pattern ?ts [TYPE_tok, IDENTIFIER] 0 = Inr (True, 0)"
    by (simp add: match_pattern_def)
  from match_token_match_pattern_frame
         [of 0 ?ts "[TYPE_tok, IF]" "[TYPE_tok, IDENTIFIER]" True 0] m
  show ?thesis by simp
qed

subsection \<open>Separators of the parameter list\<close>

text \<open>
  C9. In the parameter list of a function declaration the separator and the closing
  delimiter are recognised by their text, not their type. In a declaration with the
  parameters \<open>x\<close> of type \<^verbatim>\<open>int\<close> and \<open>y\<close> of type \<^verbatim>\<open>char\<close>, the comma and the closing
  parenthesis may carry any type tag other than the assignment tag (which an
  init-declarator before them would consume), and the declaration parses with both
  parameters: as \<^verbatim>\<open>int f(int x, char y);\<close> when the arguments are evaluated left to right,
  as \<^verbatim>\<open>int f(x int, y char);\<close> when they are evaluated right to left.
\<close>

theorem parameter_separator_by_text:
  assumes "ty1 \<noteq> ASSIGNMENT" and "ty2 \<noteq> ASSIGNMENT"
  shows "parse LeftToRight
     [Token TYPE_tok ''int'', Token IDENTIFIER ''f'', Token LPAREN ''('',
      Token TYPE_tok ''int'', Token IDENTIFIER ''x'', Token ty1 '','',
      Token TYPE_tok ''char'', Token IDENTIFIER ''y'', Token ty2 '')'',
      Token SEMICOLON '';'', Token END []]
     (n + 5) =
   Inr (TranslationUnit
          [FuncDeclaration ''int'' (NoPtrDeclarator ''f'')
             [ParameterDeclaration ''int'' (InitDeclarator (NoPtrDeclarator ''x'') None),
              ParameterDeclaration ''char'' (InitDeclarator (NoPtrDeclarator ''y'') None)]
             None], 11)
   \<and> parse RightToLeft
     [Token TYPE_tok ''int'', Token IDENTIFIER ''f'', Token LPAREN ''('',
      Token IDENTIFIER ''x'', Token TYPE_tok ''int'', Token ty1 '','',
      Token IDENTIFIER ''y'', Token TYPE_tok ''char'', Token ty2 '')'',
      Token SEMICOLON '';'', Token END []]
     (n + 5) =
   Inr (TranslationUnit
          [FuncDeclaration ''int'' (NoPtrDeclarator ''f'')
             [ParameterDeclaration ''int'' (InitDeclarator (NoPtrDeclarator ''x'') None),
              ParameterDeclaration ''char'' (InitDeclarator (NoPtrDeclarator ''y'') None)]
             None], 11)"
  using assms
  by (simp add: numeral_eq_Suc parse_def parse_declaration_def parse_function_declaration_def
      parse_parameter_declaration_def parse_init_declarator_def parse_declarator_def
      cursor_simps)

theorem parameter_separator_by_text_witness:
  "IDENTIFIER \<noteq> ASSIGNMENT \<and> SEMICOLON \<noteq> ASSIGNMENT \<and> IDENTIFIER \<noteq> COMMA
   \<and> parse LeftToRight
     [Token TYPE_tok ''int'', Token IDENTIFIER ''f'', Token LPAREN ''('',
      Token TYPE_tok ''int'', Token IDENTIFIER ''x'', Token IDENTIFIER '','',
      Token TYPE_tok ''char'', Token IDENTIFIER ''y'', Token SEMICOLON '')'',
      Token SEMICOLON '';'', Token END []]
     5 =
   Inr (TranslationUnit
          [FuncDeclaration ''int'' (NoPtrDeclarator ''f'')
             [ParameterDeclaration ''int'' (InitDeclarator (NoPtrDeclarator ''x'') None),
              ParameterDeclaration ''char'' (InitDeclarator (NoPtrDeclarator ''y'') None)]
             None], 11)
   \<and> parse RightToLeft
     [Token TYPE_tok ''int'', Token IDENTIFIER ''f'', Token LPAREN ''('',
      Token IDENTIFIER ''x'', Token TYPE_tok ''int'', Token IDENTIFIER '','',
      Token IDENTIFIER ''y'', Token TYPE_tok ''char'', Token SEMICOLON '')'',
      Token SEMICOLON '';'', Token END []]
     5 =
   Inr (TranslationUnit
          [FuncDeclaration ''int'' (NoPtrDeclarator ''f'')
             [ParameterDeclaration ''int'' (InitDeclarator (NoPtrDeclarator ''x'') None),
              ParameterDeclaration ''char'' (InitDeclarator (NoPtrDeclarator ''y'') None)]
             None], 11)"
proof -
  have a: "IDENTIFIER \<noteq> ASSIGNMENT" by simp
  have b: "SEMICOLON \<noteq> ASSIGNMENT" by simp
  from parameter_separator_by_text [OF a b, of 0] show ?thesis by simp
qed

subsection \<open>The empty translation unit\<close>

text \<open>
  C10. On the token vector that holds only the end-of-input token, \<^verbatim>\<open>parse\<close> returns a
  translation unit without declarations, and the offset is 1 afterwards: the test of the
  driver loop consumed the sentinel.
\<close>

theorem parse_sentinel_only:
  "parse order [Token END v] (Suc n) = Inr (TranslationUnit [], 1)"
  by (simp add: parse_def cursor_simps)

end
